theory Spec2Isabelle
  imports Complex_Main "HOL-Library.Sublist" "HOL-Library.Log_Nat"
begin

section \<open>The faculty review service (server.js)\<close>

text \<open>
  The source file holds two variants of the same server: the first one (lines 1 to 483)
  and a later one (lines 483 to 742) that repeats the helpers and the submit-review
  route with small changes. Where the two differ, the definitions below carry the
  suffix \<open>_v1\<close> for the first variant and \<open>_v2\<close> for the later one; a definition without
  suffix is the same in both.
\<close>

subsection \<open>JavaScript strings\<close>

text \<open>
  A JavaScript string is a sequence of UTF-16 code units. The model covers the code
  units below 256 (ASCII and Latin-1), one \<^typ>\<open>char\<close> for each, so \<^typ>\<open>string\<close>
  is the type of the strings of the program.
\<close>

definition toLowerCase_char :: "char \<Rightarrow> char" where
  \<comment> \<open>A to Z, and the Latin-1 capitals U+00C0 to U+00DE without the sign U+00D7.\<close>
  "toLowerCase_char c =
     (let n = (of_char c :: nat)
      in if (65 \<le> n \<and> n \<le> 90) \<or> (192 \<le> n \<and> n \<le> 222 \<and> n \<noteq> 215)
         then char_of (n + 32) else c)"

definition toLowerCase :: "string \<Rightarrow> string" where
  "toLowerCase s = map toLowerCase_char s"

definition isWhiteSpace :: "char \<Rightarrow> bool" where
  \<comment> \<open>WhiteSpace and LineTerminator below 256: TAB, LF, VT, FF, CR, SP, NBSP.\<close>
  "isWhiteSpace c = ((of_char c :: nat) \<in> {9, 10, 11, 12, 13, 32, 160})"

definition trimStart :: "string \<Rightarrow> string" where
  "trimStart s = dropWhile isWhiteSpace s"

definition trim :: "string \<Rightarrow> string" where
  "trim s = rev (dropWhile isWhiteSpace (rev (dropWhile isWhiteSpace s)))"

text \<open>\<open>s.includes(t)\<close>: is there an index of \<open>s\<close> at which \<open>t\<close> starts?\<close>

fun includes_str :: "string \<Rightarrow> string \<Rightarrow> bool" where
  "includes_str [] t = (t = [])"
| "includes_str (c # cs) t = (prefix t (c # cs) \<or> includes_str cs t)"

subsection \<open>JavaScript numbers and values\<close>

text \<open>
  A Number is an IEEE 754 binary64 value: NaN, an infinity, or a finite value, which is
  a rational here. The two zeros are one value, \<open>Fin 0\<close>: the program never divides by
  a zero and prints both the same way, so it cannot tell them apart.
\<close>

datatype jsnum = NaN | PosInf | NegInf | Fin rat

text \<open>
  The values that come in a request body and go into a response or into a row to
  append: the values of JSON, and \<open>undefined\<close> for a field that is missing.
\<close>

datatype jsval =
    JUndefined
  | JNull
  | JBool bool
  | JNum jsnum
  | JStr string
  | JArr "jsval list"
  | JObj "(string \<times> jsval) list"

subsection \<open>Rounding to binary64\<close>

definition ilog2 :: "rat \<Rightarrow> int" where
  \<comment> \<open>The integer \<open>e\<close> with \<open>2^e \<le> a < 2^(e+1)\<close>, for \<open>a > 0\<close>.\<close>
  "ilog2 a = (if 1 \<le> a then bitlen \<lfloor>a\<rfloor> - 1 else - bitlen (\<lceil>1 / a\<rceil> - 1))"

definition pow2 :: "int \<Rightarrow> rat" where
  "pow2 e = (if 0 \<le> e then 2 ^ nat e else 1 / 2 ^ nat (- e))"

definition pow10 :: "int \<Rightarrow> rat" where
  "pow10 e = (if 0 \<le> e then 10 ^ nat e else 1 / 10 ^ nat (- e))"

definition roundHalfEven :: "rat \<Rightarrow> int" where
  "roundHalfEven x =
     (let f = \<lfloor>x\<rfloor>; d = x - of_int f
      in if d < 1 / 2 then f else if 1 / 2 < d then f + 1 else if even f then f else f + 1)"

definition round_double :: "rat \<Rightarrow> jsnum" where
  "round_double x =
     (if x = 0 then Fin 0
      else let a = \<bar>x\<bar>;
               e = max (ilog2 a) (- 1022);
               ulp = pow2 (e - 52);
               m = roundHalfEven (a / ulp)
           in if 1024 \<le> e \<or> (e = 1023 \<and> 2 ^ 53 \<le> m)
              then (if 0 < x then PosInf else NegInf)
              else Fin (if 0 < x then of_int m * ulp else - (of_int m * ulp)))"

subsection \<open>Arithmetic\<close>

fun js_add :: "jsnum \<Rightarrow> jsnum \<Rightarrow> jsnum" where
  "js_add NaN y = NaN"
| "js_add x NaN = NaN"
| "js_add PosInf NegInf = NaN"
| "js_add NegInf PosInf = NaN"
| "js_add PosInf y = PosInf"
| "js_add NegInf y = NegInf"
| "js_add x PosInf = PosInf"
| "js_add x NegInf = NegInf"
| "js_add (Fin a) (Fin b) = round_double (a + b)"

text \<open>\<open>x / xs.length\<close>: the divisor is the length of an array, a non-negative integer.\<close>

fun js_div_length :: "jsnum \<Rightarrow> nat \<Rightarrow> jsnum" where
  "js_div_length NaN n = NaN"
| "js_div_length PosInf n = PosInf"
| "js_div_length NegInf n = NegInf"
| "js_div_length (Fin a) n =
     (if n = 0 then (if a = 0 then NaN else if 0 < a then PosInf else NegInf)
      else round_double (a / of_nat n))"

fun js_less :: "jsnum \<Rightarrow> jsnum \<Rightarrow> bool" where
  "js_less NaN y = False"
| "js_less x NaN = False"
| "js_less PosInf y = False"
| "js_less x NegInf = False"
| "js_less NegInf y = True"
| "js_less x PosInf = True"
| "js_less (Fin a) (Fin b) = (a < b)"

subsection \<open>Decimal digits\<close>

definition digitChar :: "int \<Rightarrow> char" where
  "digitChar d = char_of (48 + d)"

text \<open>The decimal digits of a non-negative integer.\<close>

function decimal :: "int \<Rightarrow> string" where
  "decimal n = (if n < 10 then [digitChar n] else decimal (n div 10) @ [digitChar (n mod 10)])"
  by pat_completeness auto
termination
  by (relation "measure nat") auto

declare decimal.simps [simp del]

definition isDigit :: "char \<Rightarrow> bool" where
  "isDigit c = (48 \<le> (of_char c :: nat) \<and> (of_char c :: nat) \<le> 57)"

definition radixDigit :: "char \<Rightarrow> nat option" where
  "radixDigit c =
     (let n = (of_char c :: nat)
      in if 48 \<le> n \<and> n \<le> 57 then Some (n - 48)
         else if 97 \<le> n \<and> n \<le> 122 then Some (n - 87)
         else if 65 \<le> n \<and> n \<le> 90 then Some (n - 55)
         else None)"

definition isRadixDigit :: "nat \<Rightarrow> char \<Rightarrow> bool" where
  "isRadixDigit R c = (case radixDigit c of None \<Rightarrow> False | Some d \<Rightarrow> d < R)"

definition digitsValue :: "nat \<Rightarrow> string \<Rightarrow> int" where
  "digitsValue R ds =
     foldl (\<lambda>v c. int R * v + (case radixDigit c of None \<Rightarrow> 0 | Some d \<Rightarrow> int d)) 0 ds"

subsection \<open>Strings to numbers\<close>

datatype literal = Infinity | Decimal rat

definition signPart :: "string \<Rightarrow> bool \<times> string" where
  "signPart s =
     (case s of
        [] \<Rightarrow> (False, s)
      | c # r \<Rightarrow> if c = CHR ''-'' then (True, r) else if c = CHR ''+'' then (False, r)
                 else (False, s))"

definition exponentPart :: "string \<Rightarrow> int \<times> string" where
  "exponentPart s =
     (case s of
        [] \<Rightarrow> (0, s)
      | c # r \<Rightarrow>
          if c = CHR ''e'' \<or> c = CHR ''E'' then
            (case signPart r of
               (neg, r') \<Rightarrow>
                 if takeWhile isDigit r' = [] then (0, s)
                 else ((if neg then - 1 else 1) * digitsValue 10 (takeWhile isDigit r'),
                       dropWhile isDigit r'))
          else (0, s))"

definition strUnsignedDecimalLiteral :: "string \<Rightarrow> (literal \<times> string) option" where
  "strUnsignedDecimalLiteral s =
     (if prefix ''Infinity'' s then Some (Infinity, drop 8 s)
      else
        let ip = takeWhile isDigit s; r1 = dropWhile isDigit s
        in case r1 of
             [] \<Rightarrow> if ip = [] then None else Some (Decimal (of_int (digitsValue 10 ip)), [])
           | c # r2 \<Rightarrow>
               if c = CHR ''.'' then
                 (let fp = takeWhile isDigit r2
                  in if ip = [] \<and> fp = [] then None
                     else case exponentPart (dropWhile isDigit r2) of
                            (e, rest) \<Rightarrow>
                              Some (Decimal (of_int (digitsValue 10 (ip @ fp))
                                             * pow10 (e - int (length fp))), rest))
               else if ip = [] then None
               else case exponentPart r1 of
                      (e, rest) \<Rightarrow> Some (Decimal (of_int (digitsValue 10 ip) * pow10 e), rest))"

definition strDecimalLiteral :: "string \<Rightarrow> (jsnum \<times> string) option" where
  "strDecimalLiteral s =
     (case signPart s of
        (neg, u) \<Rightarrow>
          (case strUnsignedDecimalLiteral u of
             None \<Rightarrow> None
           | Some (Infinity, rest) \<Rightarrow> Some (if neg then NegInf else PosInf, rest)
           | Some (Decimal v, rest) \<Rightarrow> Some (round_double (if neg then - v else v), rest)))"

definition parseFloat_str :: "string \<Rightarrow> jsnum" where
  "parseFloat_str s =
     (case strDecimalLiteral (trimStart s) of None \<Rightarrow> NaN | Some (n, rest) \<Rightarrow> n)"

definition nonDecimalIntegerLiteral :: "string \<Rightarrow> jsnum option" where
  "nonDecimalIntegerLiteral t =
     (case t of
        z # p # ds \<Rightarrow>
          (let R = (if p = CHR ''x'' \<or> p = CHR ''X'' then 16
                    else if p = CHR ''o'' \<or> p = CHR ''O'' then 8
                    else if p = CHR ''b'' \<or> p = CHR ''B'' then 2 else (0::nat))
           in if z = CHR ''0'' \<and> R \<noteq> 0 \<and> ds \<noteq> [] \<and> list_all (isRadixDigit R) ds
              then Some (round_double (of_int (digitsValue R ds))) else None)
      | _ \<Rightarrow> None)"

definition StringToNumber :: "string \<Rightarrow> jsnum" where
  "StringToNumber s =
     (let t = trim s
      in if t = [] then Fin 0
         else case nonDecimalIntegerLiteral t of
                Some n \<Rightarrow> n
              | None \<Rightarrow>
                  (case strDecimalLiteral t of
                     None \<Rightarrow> NaN
                   | Some (n, rest) \<Rightarrow> if rest = [] then n else NaN))"

definition parseInt_str :: "string \<Rightarrow> jsnum" where
  "parseInt_str s =
     (case signPart (trimStart s) of
        (neg, u) \<Rightarrow>
          (let hex = (prefix ''0x'' u \<or> prefix ''0X'' u);
               R = (if hex then 16 else 10);
               Z = takeWhile (isRadixDigit R) (if hex then drop 2 u else u)
           in if Z = [] then NaN
              else round_double ((if neg then - 1 else 1) * of_int (digitsValue R Z))))"

subsection \<open>Numbers to strings\<close>

definition decimalExponent :: "rat \<Rightarrow> int" where
  \<comment> \<open>The integer \<open>n\<close> with \<open>10^(n-1) \<le> a < 10^n\<close>, for \<open>a > 0\<close>.\<close>
  "decimalExponent a =
     (if 1 \<le> a then int (length (decimal \<lfloor>a\<rfloor>))
      else 1 - int (length (decimal (\<lceil>1 / a\<rceil> - 1))))"

text \<open>
  Number::toString looks for the integers \<open>n\<close>, \<open>k\<close> and \<open>s\<close> with \<open>k\<close> digits in \<open>s\<close>,
  \<open>k\<close> as small as possible, such that \<open>s * 10^(n-k)\<close> is the number: here, such that
  it rounds to the number. For a given \<open>k\<close> the two candidates are the \<open>k\<close>-digit
  decimals just below and just above; the nearer one is taken, the even one at a tie.
\<close>

definition digitCandidate :: "rat \<Rightarrow> int \<Rightarrow> nat \<Rightarrow> (int \<times> int) option" where
  "digitCandidate a n0 k =
     (let scale = pow10 (n0 - int k);
          lo = \<lfloor>a / scale\<rfloor>;
          hi = lo + 1;
          okLo = (round_double (of_int lo * scale) = Fin a);
          okHi = (round_double (of_int hi * scale) = Fin a);
          dLo = a - of_int lo * scale;
          dHi = of_int hi * scale - a
      in if okLo \<and> (\<not> okHi \<or> dLo < dHi \<or> (dLo = dHi \<and> even lo)) then Some (lo, n0)
         else if okHi then (if hi = 10 ^ k then Some (10 ^ (k - 1), n0 + 1) else Some (hi, n0))
         else None)"

fun shortestDigits :: "rat \<Rightarrow> int \<Rightarrow> nat list \<Rightarrow> int \<times> int" where
  "shortestDigits a n0 [] = (\<lfloor>a / pow10 (n0 - 17)\<rfloor>, n0)"
| "shortestDigits a n0 (k # ks) =
     (case digitCandidate a n0 k of
        Some sn \<Rightarrow> sn
      | None \<Rightarrow> shortestDigits a n0 ks)"

definition numToString_pos :: "rat \<Rightarrow> string" where
  "numToString_pos a =
     (case shortestDigits a (decimalExponent a) [1..<18] of
        (s, n) \<Rightarrow>
          (let ds = decimal s; k = int (length ds)
           in if k \<le> n \<and> n \<le> 21 then ds @ replicate (nat (n - k)) CHR ''0''
              else if 0 < n \<and> n \<le> 21 then take (nat n) ds @ ''.'' @ drop (nat n) ds
              else if - 6 < n \<and> n \<le> 0 then ''0.'' @ replicate (nat (- n)) CHR ''0'' @ ds
              else (if k = 1 then ds else take 1 ds @ ''.'' @ drop 1 ds)
                   @ ''e'' @ (if n - 1 < 0 then ''-'' else ''+'') @ decimal \<bar>n - 1\<bar>))"

fun numToString :: "jsnum \<Rightarrow> string" where
  "numToString NaN = ''NaN''"
| "numToString PosInf = ''Infinity''"
| "numToString NegInf = ''-Infinity''"
| "numToString (Fin x) =
     (if x = 0 then ''0'' else if x < 0 then ''-'' @ numToString_pos (- x)
      else numToString_pos x)"

text \<open>\<open>x.toFixed(f)\<close>, for \<open>f\<close> from 0 to 100.\<close>

definition toFixed_digits :: "rat \<Rightarrow> nat \<Rightarrow> string" where
  "toFixed_digits a f =
     (if 10 ^ 21 \<le> a then numToString_pos a
      else
        let n = \<lfloor>a * 10 ^ f + 1 / 2\<rfloor>;
            m = (if n = 0 then ''0'' else decimal n);
            m' = (if f \<noteq> 0 \<and> length m \<le> f then replicate (f + 1 - length m) CHR ''0'' @ m
                  else m)
        in if f \<noteq> 0 then take (length m' - f) m' @ ''.'' @ drop (length m' - f) m' else m')"

fun toFixed :: "jsnum \<Rightarrow> nat \<Rightarrow> string" where
  "toFixed (Fin x) f = (if x < 0 then ''-'' @ toFixed_digits (- x) f else toFixed_digits x f)"
| "toFixed x f = numToString x"

subsection \<open>Conversions of values\<close>

text \<open>
  A conversion returns a value or throws an error, of which the message is kept.
  \<open>andThen\<close> goes on with the value returned; \<open>inOrder\<close> evaluates from left to right
  and stops at the first error.
\<close>

datatype 'a outcome = Raises string | Gives 'a

definition andThen :: "'a outcome \<Rightarrow> ('a \<Rightarrow> 'b outcome) \<Rightarrow> 'b outcome" where
  "andThen r f = (case r of Raises message \<Rightarrow> Raises message | Gives x \<Rightarrow> f x)"

fun inOrder :: "'a outcome list \<Rightarrow> 'a list outcome" where
  "inOrder [] = Gives []"
| "inOrder (r # rs) = andThen r (\<lambda>x. andThen (inOrder rs) (\<lambda>xs. Gives (x # xs)))"

fun join :: "string \<Rightarrow> string list \<Rightarrow> string" where
  "join sep [] = []"
| "join sep [s] = s"
| "join sep (s # t # ts) = s @ sep @ join sep (t # ts)"

text \<open>
  ToString. An array is the join of its elements with commas, where \<open>null\<close> and
  \<open>undefined\<close> elements are empty. The values are those of JSON, so no property of an
  object is callable. The conversion of an object to a primitive value tries the
  methods \<open>toString\<close> and \<open>valueOf\<close> (in this order for a string, in the other order for
  a number): \<open>valueOf\<close> of the prototype returns the object itself, which is no
  primitive value, and \<open>toString\<close> of the prototype gives \<open>[object Object]\<close>. An object
  with a key \<open>toString\<close> of its own hides the method of the prototype by a value that
  cannot be called, and the conversion throws a \<open>TypeError\<close>.
\<close>

fun ToString :: "jsval \<Rightarrow> string outcome" where
  "ToString JUndefined = Gives ''undefined''"
| "ToString JNull = Gives ''null''"
| "ToString (JBool b) = Gives (if b then ''true'' else ''false'')"
| "ToString (JNum n) = Gives (numToString n)"
| "ToString (JStr s) = Gives s"
| "ToString (JArr vs) =
     andThen (inOrder (map (\<lambda>v. if v = JUndefined \<or> v = JNull then Gives [] else ToString v) vs))
       (\<lambda>strings. Gives (join '','' strings))"
| "ToString (JObj kvs) =
     (if ''toString'' \<in> set (map fst kvs)
      then Raises ''Cannot convert object to primitive value''
      else Gives ''[object Object]'')"

fun ToNumber :: "jsval \<Rightarrow> jsnum outcome" where
  "ToNumber JUndefined = Gives NaN"
| "ToNumber JNull = Gives (Fin 0)"
| "ToNumber (JBool b) = Gives (if b then Fin 1 else Fin 0)"
| "ToNumber (JNum n) = Gives n"
| "ToNumber (JStr s) = Gives (StringToNumber s)"
| "ToNumber (JArr vs) = andThen (ToString (JArr vs)) (\<lambda>s. Gives (StringToNumber s))"
| "ToNumber (JObj kvs) = andThen (ToString (JObj kvs)) (\<lambda>s. Gives (StringToNumber s))"

fun ToBoolean :: "jsval \<Rightarrow> bool" where
  "ToBoolean JUndefined = False"
| "ToBoolean JNull = False"
| "ToBoolean (JBool b) = b"
| "ToBoolean (JNum n) = (n \<noteq> NaN \<and> n \<noteq> Fin 0)"
| "ToBoolean (JStr s) = (s \<noteq> [])"
| "ToBoolean (JArr vs) = True"
| "ToBoolean (JObj kvs) = True"

definition isNaN :: "jsval \<Rightarrow> bool outcome" where
  "isNaN v = andThen (ToNumber v) (\<lambda>n. Gives (n = NaN))"

definition parseInt :: "jsval \<Rightarrow> jsnum outcome" where
  "parseInt v = andThen (ToString v) (\<lambda>s. Gives (parseInt_str s))"

definition parseFloat :: "jsval \<Rightarrow> jsnum outcome" where
  "parseFloat v = andThen (ToString v) (\<lambda>s. Gives (parseFloat_str s))"

text \<open>\<open>v < 1\<close> and \<open>v > 5\<close>, the other operand being a number.\<close>

definition js_lt_num :: "jsval \<Rightarrow> jsnum \<Rightarrow> bool outcome" where
  "js_lt_num v n = andThen (ToNumber v) (\<lambda>x. Gives (js_less x n))"

definition js_gt_num :: "jsval \<Rightarrow> jsnum \<Rightarrow> bool outcome" where
  "js_gt_num v n = andThen (ToNumber v) (\<lambda>x. Gives (js_less n x))"

text \<open>
  \<open>a || b\<close> on conditions: \<open>b\<close> is evaluated only when \<open>a\<close> returns false.
  \<open>array.some(p)\<close> stops at the first element for which \<open>p\<close> returns true or throws.
\<close>

definition orElse :: "bool outcome \<Rightarrow> bool outcome \<Rightarrow> bool outcome" where
  "orElse a b = andThen a (\<lambda>x. if x then Gives True else b)"

fun array_some :: "('a \<Rightarrow> bool outcome) \<Rightarrow> 'a list \<Rightarrow> bool outcome" where
  "array_some p [] = Gives False"
| "array_some p (x # xs) = orElse (p x) (array_some p xs)"

subsection \<open>Data model\<close>

text \<open>
  The remote calls: the reads of the ranges \<open>FACULTY_SHEET!A2:D\<close>,
  \<open>REVIEWS_SHEET!A2:A\<close> and \<open>REVIEWS_SHEET!A2:I\<close>, and the appends of one row to the
  review sheet and to the faculty sheet.
\<close>

datatype remote_call =
    ReadFaculty
  | ReadReviewNames
  | ReadReviews
  | AppendReview "jsval list"
  | AppendFaculty "jsval list"

record FacultyRecord =
  id_field :: nat
  name :: string
  department :: string
  subject :: string
  mobile :: string

text \<open>
  A row of the spreadsheet is an array of strings; it is as long as its last filled
  cell, so \<open>row[i]\<close> may be \<open>undefined\<close>, which is \<open>None\<close> here.
\<close>

type_synonym row = "string list"

definition cell :: "row \<Rightarrow> nat \<Rightarrow> string option" where
  "cell r i = (if i < length r then Some (r ! i) else None)"

text \<open>Truthiness of \<open>row[i]\<close>: defined and not the empty string.\<close>

definition truthy_cell :: "string option \<Rightarrow> bool" where
  "truthy_cell v = (case v of None \<Rightarrow> False | Some s \<Rightarrow> s \<noteq> [])"

text \<open>\<open>row[i] || ''\<close>\<close>

definition cell_or_empty :: "row \<Rightarrow> nat \<Rightarrow> string" where
  "cell_or_empty r i = (case cell r i of None \<Rightarrow> [] | Some s \<Rightarrow> s)"

subsection \<open>Search (searchFaculty)\<close>

definition searchFaculty_v1 :: "FacultyRecord list \<Rightarrow> string \<Rightarrow> FacultyRecord list" where
  "searchFaculty_v1 facultyData searchTerm =
     (let term = toLowerCase searchTerm
      in filter (\<lambda>faculty.
           includes_str (toLowerCase (name faculty)) term \<or>
           includes_str (toLowerCase (department faculty)) term \<or>
           includes_str (toLowerCase (subject faculty)) term) facultyData)"

definition searchFaculty_v2 :: "FacultyRecord list \<Rightarrow> string \<Rightarrow> FacultyRecord list" where
  "searchFaculty_v2 facultyData searchTerm =
     (let term = trim (toLowerCase searchTerm)
      in filter (\<lambda>faculty.
           includes_str (toLowerCase (name faculty)) term \<or>
           includes_str (toLowerCase (department faculty)) term \<or>
           includes_str (toLowerCase (subject faculty)) term) facultyData)"

subsection \<open>Selecting the review rows of a faculty (getFacultyAverages)\<close>

definition facultyReviews_v1 :: "row list \<Rightarrow> string \<Rightarrow> row list" where
  "facultyReviews_v1 rows facultyName =
     filter (\<lambda>row. truthy_cell (cell row 0) \<and>
                   includes_str (toLowerCase (cell_or_empty row 0)) (toLowerCase facultyName)) rows"

definition facultyReviews_v2 :: "row list \<Rightarrow> string \<Rightarrow> row list" where
  "facultyReviews_v2 rows facultyName =
     (let normalizedFacultyName = trim (toLowerCase facultyName)
      in filter (\<lambda>row. truthy_cell (cell row 0) \<and>
                       trim (toLowerCase (cell_or_empty row 0)) = normalizedFacultyName) rows)"

subsection \<open>The spreadsheet gateway, the clock and the cache\<close>

text \<open>
  An awaited \<open>sheets.spreadsheets.values.get\<close> either rejects, which the surrounding
  \<open>try\<close> catches, or resolves to a response whose \<open>data.values\<close> is an array of rows
  or is missing (\<open>None\<close>: the range holds no value). The outcome of each remote call is
  an argument of the function that issues it; every function returns the list of the
  remote calls it has issued, in order.
\<close>

datatype read_outcome = ReadFails | Values "row list option"

definition values_or_empty :: "row list option \<Rightarrow> row list" where
  \<comment> \<open>\<open>res.data.values || []\<close>\<close>
  "values_or_empty v = (case v of None \<Rightarrow> [] | Some rows \<Rightarrow> rows)"

text \<open>What a function call does in the end: it throws, or it returns a value.\<close>

datatype 'a completion = Throws | Returns 'a

definition CACHE_DURATION :: int where
  "CACHE_DURATION = 5 * 60 * 1000"

record FacultyCache =
  data :: "FacultyRecord list option"
  timestamp :: int

definition initialCache :: FacultyCache where
  "initialCache = \<lparr>data = None, timestamp = 0\<rparr>"

subsection \<open>The roster (getFacultyFromReviews, getFacultyDataFromSheets)\<close>

text \<open>\<open>[...new Set(xs)]\<close>: the elements of \<open>xs\<close> in the order of their insertion.\<close>

definition Set_values :: "'a list \<Rightarrow> 'a list" where
  "Set_values xs = foldl (\<lambda>seen x. if x \<in> set seen then seen else seen @ [x]) [] xs"

definition cell_value :: "string option \<Rightarrow> string" where
  "cell_value v = (case v of None \<Rightarrow> [] | Some s \<Rightarrow> s)"

definition placeholderRecord :: "nat \<Rightarrow> string option \<Rightarrow> FacultyRecord" where
  "placeholderRecord index nm =
     \<lparr>id_field = index + 1, name = cell_value nm, department = ''Not specified'',
      subject = ''Not specified'', mobile = ''Not available''\<rparr>"

definition uniqueNames :: "row list \<Rightarrow> string option list" where
  "uniqueNames rows = Set_values (filter truthy_cell (map (\<lambda>row. cell row 0) rows))"

definition getFacultyFromReviews ::
    "read_outcome \<Rightarrow> FacultyRecord list completion \<times> remote_call list" where
  "getFacultyFromReviews reviewNamesRead =
     (case reviewNamesRead of
        Values v \<Rightarrow>
          (Returns (map (\<lambda>(index, nm). placeholderRecord index nm)
                        (enumerate 0 (uniqueNames (values_or_empty v)))),
           [ReadReviewNames])
      | ReadFails \<Rightarrow> (Returns [], [ReadReviewNames]))"

definition rowToFaculty :: "nat \<Rightarrow> row \<Rightarrow> FacultyRecord" where
  "rowToFaculty index row =
     \<lparr>id_field = index + 1, name = cell_or_empty row 0, department = cell_or_empty row 1,
      subject = cell_or_empty row 2, mobile = cell_or_empty row 3\<rparr>"

definition facultyData :: "row list \<Rightarrow> FacultyRecord list" where
  "facultyData rows =
     filter (\<lambda>faculty. trim (name faculty) \<noteq> [])
            (map (\<lambda>(index, row). rowToFaculty index row) (enumerate 0 rows))"

text \<open>
  \<open>now1\<close> is what \<open>Date.now()\<close> returns at the cache check and \<open>now2\<close> what it returns
  when the cache is updated; \<open>facultyRead\<close> and \<open>reviewNamesRead\<close> are the outcomes of
  the two reads, each used only if the read is issued.
\<close>

definition getFacultyDataFromSheets ::
    "FacultyCache \<Rightarrow> int \<Rightarrow> int \<Rightarrow> read_outcome \<Rightarrow> read_outcome \<Rightarrow>
     FacultyRecord list completion \<times> FacultyCache \<times> remote_call list" where
  "getFacultyDataFromSheets facultyCache now1 now2 facultyRead reviewNamesRead =
     (case (if now1 - timestamp facultyCache < CACHE_DURATION then data facultyCache else None) of
        Some cached \<Rightarrow> (Returns cached, facultyCache, [])
      | None \<Rightarrow>
          (case facultyRead of
             Values v \<Rightarrow>
               (Returns (facultyData (values_or_empty v)),
                \<lparr>data = Some (facultyData (values_or_empty v)), timestamp = now2\<rparr>,
                [ReadFaculty])
           | ReadFails \<Rightarrow>
               (case getFacultyFromReviews reviewNamesRead of
                  (result, calls) \<Rightarrow> (result, facultyCache, ReadFaculty # calls))))"

subsection \<open>Averages (getFacultyAverages)\<close>

record FacultyAverages =
  teaching :: jsval
  evaluation :: jsval
  behaviour :: jsval
  internals :: jsval
  classAverage :: jsval
  overall :: jsval
  count :: nat
  latestReview :: row

text \<open>\<open>row[index] && !isNaN(row[index])\<close>\<close>

definition validEntry :: "nat \<Rightarrow> row \<Rightarrow> bool" where
  "validEntry index row =
     (truthy_cell (cell row index) \<and> StringToNumber (cell_or_empty row index) \<noteq> NaN)"

definition sumEntries :: "nat \<Rightarrow> row list \<Rightarrow> jsnum" where
  \<comment> \<open>\<open>validReviews.reduce((sum, row) => sum + parseFloat(row[index]), 0)\<close>\<close>
  "sumEntries index validReviews =
     foldl (\<lambda>sum row. js_add sum (parseFloat_str (cell_or_empty row index))) (Fin 0) validReviews"

definition calculateAverage :: "row list \<Rightarrow> nat \<Rightarrow> jsval" where
  "calculateAverage facultyReviews index =
     (let validReviews = filter (validEntry index) facultyReviews
      in if length validReviews = 0 then JNum (Fin 0)
         else JStr (toFixed (js_div_length (sumEntries index validReviews) (length validReviews)) 1))"

definition averagesOf :: "row list \<Rightarrow> FacultyAverages option" where
  "averagesOf facultyReviews =
     (case facultyReviews of
        [] \<Rightarrow> None
      | first # others \<Rightarrow>
          Some \<lparr>teaching = calculateAverage facultyReviews 1,
                evaluation = calculateAverage facultyReviews 2,
                behaviour = calculateAverage facultyReviews 3,
                internals = calculateAverage facultyReviews 4,
                classAverage = calculateAverage facultyReviews 5,
                overall = calculateAverage facultyReviews 6,
                count = length facultyReviews,
                latestReview = first\<rparr>)"

text \<open>
  The result is \<open>None\<close> for \<open>null\<close>. The \<open>catch\<close> returns \<open>null\<close> when the read rejects.
\<close>

definition getFacultyAverages_v1 ::
    "string \<Rightarrow> read_outcome \<Rightarrow> FacultyAverages option \<times> remote_call list" where
  "getFacultyAverages_v1 facultyName reviewsRead =
     (case reviewsRead of
        Values v \<Rightarrow> (averagesOf (facultyReviews_v1 (values_or_empty v) facultyName), [ReadReviews])
      | ReadFails \<Rightarrow> (None, [ReadReviews]))"

definition getFacultyAverages_v2 ::
    "string \<Rightarrow> read_outcome \<Rightarrow> FacultyAverages option \<times> remote_call list" where
  "getFacultyAverages_v2 facultyName reviewsRead =
     (case reviewsRead of
        Values v \<Rightarrow> (averagesOf (facultyReviews_v2 (values_or_empty v) facultyName), [ReadReviews])
      | ReadFails \<Rightarrow> (None, [ReadReviews]))"

subsection \<open>Responses\<close>

text \<open>
  A response is its HTTP status and the value given to \<open>res.json\<close>; \<open>res.json\<close>
  without \<open>res.status\<close> answers with the status 200.
\<close>

record response =
  status :: nat
  body :: jsval

definition averagesObject :: "FacultyAverages \<Rightarrow> jsval" where
  "averagesObject a =
     JObj [(''teaching'', teaching a), (''evaluation'', evaluation a),
           (''behaviour'', behaviour a), (''internals'', internals a),
           (''classAverage'', classAverage a), (''overall'', overall a),
           (''count'', JNum (Fin (of_nat (count a)))),
           (''latestReview'', JArr (map JStr (latestReview a)))]"

text \<open>
  GET /api/faculty-averages. \<open>facultyName\<close> is what
  \<open>decodeURIComponent(req.query.faculty)\<close> does: it throws on a malformed escape, with
  the message of the error, or returns the decoded name. The route is written once, in
  the first variant; the later variant changes the helper it calls.
\<close>

definition facultyAveragesRoute ::
    "(string \<Rightarrow> read_outcome \<Rightarrow> FacultyAverages option \<times> remote_call list) \<Rightarrow>
     string outcome \<Rightarrow> read_outcome \<Rightarrow> response \<times> remote_call list" where
  "facultyAveragesRoute getFacultyAverages facultyName reviewsRead =
     (case facultyName of
        Raises message \<Rightarrow>
          (\<lparr>status = 500,
            body = JObj [(''success'', JBool False),
                         (''error'', JStr ''Failed to get faculty averages''),
                         (''details'', JStr message)]\<rparr>, [])
      | Gives nm \<Rightarrow>
          (case getFacultyAverages nm reviewsRead of
             (Some averages, calls) \<Rightarrow>
               (\<lparr>status = 200,
                 body = JObj [(''success'', JBool True),
                              (''averages'', averagesObject averages),
                              (''message'', JStr (''Found '' @ decimal (int (count averages))
                                                   @ '' reviews for '' @ nm))]\<rparr>, calls)
           | (None, calls) \<Rightarrow>
               (\<lparr>status = 200,
                 body = JObj [(''success'', JBool False),
                              (''averages'', JNull),
                              (''message'', JStr (''No reviews found for '' @ nm))]\<rparr>, calls)))"

subsection \<open>Write operations (POST /api/submit-review, POST /api/add-faculty)\<close>

text \<open>
  \<open>const { name, ... } = req.body\<close>: the property of an object, \<open>undefined\<close> when
  it is missing; the last of several equal keys counts, as in \<open>JSON.parse\<close>.
\<close>

definition property :: "jsval \<Rightarrow> string \<Rightarrow> jsval" where
  "property v k =
     (case v of
        JObj kvs \<Rightarrow> (case map_of (rev kvs) k of None \<Rightarrow> JUndefined | Some x \<Rightarrow> x)
      | _ \<Rightarrow> JUndefined)"

text \<open>
  An awaited \<open>sheets.spreadsheets.values.append\<close> rejects with an error, whose message
  goes into the response, or resolves.
\<close>

datatype append_outcome = AppendFails string | AppendOk

definition errorResponse :: "nat \<Rightarrow> (string \<times> jsval) list \<Rightarrow> response" where
  "errorResponse code entries =
     \<lparr>status = code, body = JObj ((''success'', JBool False) # entries)\<rparr>"

text \<open>
  \<open>e.trim()\<close> and \<open>e?.trim() || ''\<close>, where \<open>e\<close> is the text of the expression: a value
  that is not a string has no method \<open>trim\<close>, and the call throws a \<open>TypeError\<close> whose
  message names the expression.
\<close>

definition trimValue :: "string \<Rightarrow> jsval \<Rightarrow> string outcome" where
  "trimValue e v =
     (case v of JStr s \<Rightarrow> Gives (trim s) | _ \<Rightarrow> Raises (e @ ''.trim is not a function''))"

definition trimOptional :: "string \<Rightarrow> jsval \<Rightarrow> string outcome" where
  "trimOptional e v =
     (case v of
        JUndefined \<Rightarrow> Gives []
      | JNull \<Rightarrow> Gives []
      | JStr s \<Rightarrow> Gives (trim s)
      | _ \<Rightarrow> Raises (e @ ''?.trim is not a function''))"

text \<open>
  The array \<open>reviewData\<close> of the route: its elements are evaluated in order, and the
  first one that throws ends the evaluation. \<open>timestampNow\<close> is the string that
  \<open>new Date().toLocaleString('en-IN', { timeZone: 'Asia/Kolkata' })\<close> gives.
\<close>

definition reviewData ::
    "jsval \<Rightarrow> jsval \<Rightarrow> jsval \<Rightarrow> jsval \<Rightarrow> jsval \<Rightarrow> jsval \<Rightarrow> jsval \<Rightarrow> string \<Rightarrow>
     jsval list outcome" where
  "reviewData =
     (\<lambda>facultyName teaching evaluation behaviour internals classAverage overall timestampNow.
     inOrder [andThen (trimValue ''facultyName'' facultyName) (\<lambda>s. Gives (JStr s)),
              andThen (parseInt teaching) (\<lambda>n. Gives (JNum n)),
              andThen (parseInt evaluation) (\<lambda>n. Gives (JNum n)),
              andThen (parseInt behaviour) (\<lambda>n. Gives (JNum n)),
              andThen (parseInt internals) (\<lambda>n. Gives (JNum n)),
              andThen (parseFloat classAverage) (\<lambda>n. Gives (JNum n)),
              andThen (parseInt overall) (\<lambda>n. Gives (JNum n)),
              Gives (JStr timestampNow)])"

text \<open>The \<open>catch\<close> of the route: the status 500 and the message of the error.\<close>

definition submitReview_catch :: "string \<Rightarrow> response" where
  "submitReview_catch message =
     errorResponse 500 [(''error'', JStr ''Failed to submit review''),
                        (''details'', JStr message)]"

text \<open>
  POST /api/submit-review. Whatever is thrown inside the \<open>try\<close> goes to the \<open>catch\<close>:
  the destructuring of a body that is \<open>undefined\<close> or \<open>null\<close>, a conversion that
  throws in the validation, \<open>trim\<close> on a name that is not a string, and the rejected
  append. The messages are those of the engine of Node.js.
\<close>

definition submitReview ::
    "FacultyCache \<Rightarrow> jsval \<Rightarrow> string \<Rightarrow> append_outcome \<Rightarrow>
     response \<times> FacultyCache \<times> remote_call list" where
  "submitReview facultyCache reqBody timestampNow appendOutcome =
     (if reqBody = JUndefined then
        (submitReview_catch
           ''Cannot destructure property 'name' of 'req.body' as it is undefined.'',
         facultyCache, [])
      else if reqBody = JNull then
        (submitReview_catch
           ''Cannot destructure property 'name' of 'req.body' as it is null.'',
         facultyCache, [])
      else
        let facultyName = property reqBody ''name'';
            teaching = property reqBody ''teaching'';
            evaluation = property reqBody ''evaluation'';
            behaviour = property reqBody ''behaviour'';
            internals = property reqBody ''internals'';
            classAverage = property reqBody ''classAverage'';
            overall = property reqBody ''overall''
        in case orElse (Gives (\<not> ToBoolean facultyName))
                  (orElse (isNaN teaching) (orElse (isNaN evaluation)
                    (orElse (isNaN behaviour) (orElse (isNaN internals)
                      (orElse (isNaN classAverage) (isNaN overall)))))) of
             Raises message \<Rightarrow> (submitReview_catch message, facultyCache, [])
           | Gives invalid \<Rightarrow>
               if invalid then
                 (errorResponse 400 [(''error'', JStr ''Invalid input data''),
                    (''message'', JStr ''All fields are required and ratings must be numbers'')],
                  facultyCache, [])
               else
                 (case array_some
                         (\<lambda>rating. orElse (js_lt_num rating (Fin 1)) (js_gt_num rating (Fin 5)))
                         [teaching, evaluation, behaviour, internals, overall] of
                    Raises message \<Rightarrow> (submitReview_catch message, facultyCache, [])
                  | Gives invalidRatings \<Rightarrow>
                      if invalidRatings then
                        (errorResponse 400 [(''error'', JStr ''Invalid rating range''),
                           (''message'', JStr ''All ratings must be between 1 and 5'')],
                         facultyCache, [])
                      else
                        (case reviewData facultyName teaching evaluation behaviour internals
                                classAverage overall timestampNow of
                           Raises message \<Rightarrow> (submitReview_catch message, facultyCache, [])
                         | Gives row \<Rightarrow>
                             (case appendOutcome of
                                AppendFails message \<Rightarrow>
                                  (submitReview_catch message, facultyCache, [AppendReview row])
                              | AppendOk \<Rightarrow>
                                  (\<lparr>status = 200,
                                    body = JObj [(''success'', JBool True),
                                      (''message'', JStr ''Review submitted successfully''),
                                      (''data'', JObj [(''faculty'', row ! 0),
                                         (''ratings'', JObj [(''teaching'', row ! 1),
                                            (''evaluation'', row ! 2),
                                            (''behaviour'', row ! 3),
                                            (''internals'', row ! 4),
                                            (''classAverage'', row ! 5),
                                            (''overall'', row ! 6)]),
                                         (''timestamp'', row ! 7)])]\<rparr>,
                                   facultyCache\<lparr>timestamp := 0\<rparr>, [AppendReview row])))))"

definition addFaculty_catch :: "string \<Rightarrow> response" where
  "addFaculty_catch message =
     errorResponse 500 [(''error'', JStr ''Failed to add faculty member''),
                        (''details'', JStr message)]"

text \<open>
  POST /api/add-faculty. The row is \<open>[name.trim(), department.trim(),
  subject?.trim() || '', mobile?.trim() || '']\<close>, evaluated in order.
\<close>

definition addFaculty ::
    "FacultyCache \<Rightarrow> jsval \<Rightarrow> append_outcome \<Rightarrow> response \<times> FacultyCache \<times> remote_call list" where
  "addFaculty facultyCache reqBody appendOutcome =
     (if reqBody = JUndefined then
        (addFaculty_catch
           ''Cannot destructure property 'name' of 'req.body' as it is undefined.'',
         facultyCache, [])
      else if reqBody = JNull then
        (addFaculty_catch
           ''Cannot destructure property 'name' of 'req.body' as it is null.'',
         facultyCache, [])
      else if \<not> ToBoolean (property reqBody ''name'') \<or>
              \<not> ToBoolean (property reqBody ''department'')
      then (errorResponse 400 [(''error'', JStr ''Name and department are required'')],
            facultyCache, [])
      else
        (case inOrder [trimValue ''name'' (property reqBody ''name''),
                       trimValue ''department'' (property reqBody ''department''),
                       trimOptional ''subject'' (property reqBody ''subject''),
                       trimOptional ''mobile'' (property reqBody ''mobile'')] of
           Raises message \<Rightarrow> (addFaculty_catch message, facultyCache, [])
         | Gives strings \<Rightarrow>
             (let facultyRow = map JStr strings
              in case appendOutcome of
                   AppendFails message \<Rightarrow>
                     (addFaculty_catch message, facultyCache, [AppendFaculty facultyRow])
                 | AppendOk \<Rightarrow>
                     (\<lparr>status = 200,
                       body = JObj [(''success'', JBool True),
                         (''message'', JStr ''Faculty member added successfully''),
                         (''data'', JObj [(''name'', facultyRow ! 0),
                            (''department'', facultyRow ! 1), (''subject'', facultyRow ! 2),
                            (''mobile'', facultyRow ! 3)])]\<rparr>,
                      facultyCache\<lparr>timestamp := 0\<rparr>, [AppendFaculty facultyRow]))))"

section \<open>The notions of the specification\<close>

text \<open>
  The definitions of this section are not translations of the source: they state, in
  the words of the specification, what the properties below compare the program with.
\<close>

subsection \<open>Search and matching\<close>

text \<open>
  The search of the specification, in its words: keep a record if the trimmed
  lower-cased term is a substring of the lower-cased name, department or subject.
\<close>

definition search_spec :: "FacultyRecord list \<Rightarrow> string \<Rightarrow> FacultyRecord list" where
  "search_spec R t =
     filter (\<lambda>r. sublist (trim (toLowerCase t)) (toLowerCase (name r)) \<or>
                 sublist (trim (toLowerCase t)) (toLowerCase (department r)) \<or>
                 sublist (trim (toLowerCase t)) (toLowerCase (subject r))) R"



subsection \<open>The cache and the roster\<close>

text \<open>The cache entry is fresh at an instant: \<open>get()\<close> serves it without a read.\<close>

definition cacheFresh :: "FacultyCache \<Rightarrow> int \<Rightarrow> bool" where
  "cacheFresh c now = (data c \<noteq> None \<and> now - timestamp c < CACHE_DURATION)"

text \<open>
  Keeping the first occurrence of every element: an element stays where it occurs
  first, and its later copies go.
\<close>

primrec first_occurrences :: "'a list \<Rightarrow> 'a list" where
  "first_occurrences [] = []"
| "first_occurrences (x # xs) = x # filter (\<lambda>y. y \<noteq> x) (first_occurrences xs)"

text \<open>The names of the first column: the rows without a name contribute none.\<close>

definition firstColumn :: "row list \<Rightarrow> string list" where
  "firstColumn rows =
     concat (map (\<lambda>r. case cell r 0 of None \<Rightarrow> [] | Some s \<Rightarrow> if s = [] then [] else [s]) rows)"

definition derived_roster_spec :: "row list \<Rightarrow> FacultyRecord list" where
  "derived_roster_spec rows =
     map (\<lambda>(i, n). \<lparr>id_field = i + 1, name = n, department = ''Not specified'',
                     subject = ''Not specified'', mobile = ''Not available''\<rparr>)
         (enumerate 0 (first_occurrences (firstColumn rows)))"

text \<open>A row of the roster range is kept: its name is not empty after trimming.\<close>

definition keptRow :: "row \<Rightarrow> bool" where
  "keptRow row = (trim (cell_or_empty row 0) \<noteq> [])"

subsection \<open>Validation and envelopes\<close>

definition ratingFields :: "string list" where
  \<comment> \<open>The fields that the route checks against the range, in the order of its array.\<close>
  "ratingFields = [''teaching'', ''evaluation'', ''behaviour'', ''internals'', ''overall'']"

definition numberFields :: "string list" where
  \<comment> \<open>The fields that the route requires to be numbers, in the order of its condition.\<close>
  "numberFields = [''teaching'', ''evaluation'', ''behaviour'', ''internals'',
                   ''classAverage'', ''overall'']"

text \<open>A value is a number below 1 or above 5 (NaN is neither).\<close>

definition outsideRange :: "jsval \<Rightarrow> bool" where
  "outsideRange v =
     (case ToNumber v of
        Raises message \<Rightarrow> False
      | Gives n \<Rightarrow> js_less n (Fin 1) \<or> js_less (Fin 5) n)"

text \<open>A value has a number: its conversion to a number does not throw.\<close>

definition convertible :: "jsval \<Rightarrow> bool" where
  "convertible v = (case ToNumber v of Raises message \<Rightarrow> False | Gives n \<Rightarrow> True)"

definition invalidInput :: response where
  "invalidInput = errorResponse 400 [(''error'', JStr ''Invalid input data''),
     (''message'', JStr ''All fields are required and ratings must be numbers'')]"

definition invalidRange :: response where
  "invalidRange = errorResponse 400 [(''error'', JStr ''Invalid rating range''),
     (''message'', JStr ''All ratings must be between 1 and 5'')]"

definition conversionError :: response where
  "conversionError = errorResponse 500 [(''error'', JStr ''Failed to submit review''),
     (''details'', JStr ''Cannot convert object to primitive value'')]"

definition notFoundEnvelope :: "string \<Rightarrow> response" where
  "notFoundEnvelope nm =
     \<lparr>status = 200,
      body = JObj [(''success'', JBool False), (''averages'', JNull),
                   (''message'', JStr (''No reviews found for '' @ nm))]\<rparr>"

text \<open>
  The integer truncation of a number, which the specification expects in the stored
  row for a rating.
\<close>

fun truncation :: "jsnum \<Rightarrow> jsnum" where
  "truncation (Fin x) = Fin (if 0 \<le> x then of_int \<lfloor>x\<rfloor> else - of_int \<lfloor>- x\<rfloor>)"
| "truncation n = n"

text \<open>The row that the route appends for a request body.\<close>

definition reviewRow :: "jsval \<Rightarrow> string \<Rightarrow> jsval list outcome" where
  "reviewRow reqBody ts =
     reviewData (property reqBody ''name'') (property reqBody ''teaching'')
       (property reqBody ''evaluation'') (property reqBody ''behaviour'')
       (property reqBody ''internals'') (property reqBody ''classAverage'')
       (property reqBody ''overall'') ts"

subsection \<open>Averages\<close>

text \<open>
  The average of the specification, in its words: the arithmetic mean of the entries of
  a category that are present and parse as finite numbers, rounded to one decimal
  digit, and exactly 0 when there is no such entry.
\<close>

definition finiteEntries :: "nat \<Rightarrow> row list \<Rightarrow> rat list" where
  "finiteEntries index rows =
     concat (map (\<lambda>row. case parseFloat_str (cell_or_empty row index) of
                           Fin x \<Rightarrow> [x] | _ \<Rightarrow> []) rows)"

definition average_spec :: "nat \<Rightarrow> row list \<Rightarrow> rat" where
  "average_spec index rows =
     (let entries = finiteEntries index rows
      in if entries = [] then 0
         else of_int \<lfloor>sum_list entries / of_nat (length entries) * 10 + 1 / 2\<rfloor> / 10)"

text \<open>
  The entries of a category that the average counts, what \<open>parseFloat\<close> reads in them,
  and the mean that the program computes: the binary64 sum, from left to right, divided
  by the number of the entries.
\<close>

definition validReviews :: "nat \<Rightarrow> row list \<Rightarrow> row list" where
  "validReviews index frs = filter (validEntry index) frs"

definition entryValues :: "nat \<Rightarrow> row list \<Rightarrow> jsnum list" where
  "entryValues index rows = map (\<lambda>row. parseFloat_str (cell_or_empty row index)) rows"

definition meanOf :: "nat \<Rightarrow> row list \<Rightarrow> jsnum" where
  "meanOf index frs =
     js_div_length (sumEntries index (validReviews index frs)) (length (validReviews index frs))"

text \<open>The decimal \<open>d / 10\<close>, for \<open>d \<ge> 0\<close>, written with one fraction digit.\<close>

definition fixed1 :: "int \<Rightarrow> string" where
  "fixed1 d = decimal (d div 10) @ ''.'' @ [digitChar (d mod 10)]"

subsection \<open>Binary64 values and their digits\<close>

text \<open>
  The exponent and the unit in the last place that \<open>round_double\<close> uses for a value.
\<close>

definition expOf :: "rat \<Rightarrow> int" where
  "expOf q = max (ilog2 q) (- 1022)"

definition ulpOf :: "rat \<Rightarrow> rat" where
  "ulpOf q = pow2 (expOf q - 52)"

text \<open>
  The digits \<open>s\<close> and the exponent \<open>n\<close> that Number::toString finds print a number
  with one digit before the point, which is the integer part of the number.
\<close>

definition leadingDigits :: "rat \<Rightarrow> int \<times> int \<Rightarrow> bool" where
  "leadingDigits x sn =
     (snd sn = 1 \<and> (\<exists>j. 10 ^ j \<le> fst sn \<and> fst sn < 10 ^ Suc j \<and> fst sn div 10 ^ j = \<lfloor>x\<rfloor>))"

section \<open>Example inputs\<close>

definition noon :: int where
  \<comment> \<open>An instant of the year 2023, in milliseconds since the epoch.\<close>
  "noon = 1700000000000"

definition rao :: FacultyRecord where
  "rao = \<lparr>id_field = 1, name = ''Dr. Rao'', department = ''CSE'', subject = ''Algebra'',
          mobile = ''''\<rparr>"

definition reviewNames :: "row list" where
  "reviewNames = [[''Dr. Rao''], [''Dr. Rao''], [''Dr. Singh'']]"

definition rosterWithBlank :: "row list" where
  "rosterWithBlank = [[''Dr. Rao'', ''CSE''], ['''', ''ECE''], [''Dr. Singh'', ''EEE'']]"

definition populated :: "FacultyRecord list" where
  \<comment> \<open>The roster that the range \<open>rosterWithBlank\<close> gives.\<close>
  "populated =
     [\<lparr>id_field = 1, name = ''Dr. Rao'', department = ''CSE'', subject = '''', mobile = ''''\<rparr>,
      \<lparr>id_field = 3, name = ''Dr. Singh'', department = ''EEE'', subject = '''',
       mobile = ''''\<rparr>]"

definition staleCache :: FacultyCache where
  "staleCache = \<lparr>data = Some [rao], timestamp = noon\<rparr>"

definition reviews :: "row list" where
  "reviews = [[''Dr. Rao'', ''5'', ''4'', ''5'', ''3'', ''72.5'', ''4'', ''1/1/2025, 10:00:00 am''],
              [''Dr. Singh'', ''3'', ''4'', ''4'', ''4'', ''65'', ''4'', ''2/1/2025, 9:30:00 am'']]"

definition ratedRows :: "row list" where
  "ratedRows = [[''A'', ''1'', ''x'', ''-2''], [''A'', ''2'']]"

definition infiniteRows :: "row list" where
  "infiniteRows = [[''A'', ''Infinity''], [''A'', ''-Infinity'']]"

definition blankRows :: "row list" where
  \<comment> \<open>One review of \<open>A\<close> whose teaching cell holds a space.\<close>
  "blankRows = [[''A'', '' '', ''4'']]"

definition ratedAverages :: FacultyAverages where
  "ratedAverages =
     \<lparr>teaching = JStr ''1.5'', evaluation = JNum (Fin 0), behaviour = JStr ''-2.0'',
      internals = JNum (Fin 0), classAverage = JNum (Fin 0), overall = JNum (Fin 0),
      count = 2, latestReview = [''A'', ''1'', ''x'', ''-2'']\<rparr>"

definition reviewBody :: "jsval \<Rightarrow> jsval \<Rightarrow> jsval" where
  \<comment> \<open>A request body with the given \<open>teaching\<close> and \<open>classAverage\<close>.\<close>
  "reviewBody t ca =
     JObj [(''name'', JStr '' Dr. Rao ''), (''teaching'', t), (''evaluation'', JNum (Fin 4)),
           (''behaviour'', JStr ''5''), (''internals'', JNum (Fin 3)), (''classAverage'', ca),
           (''overall'', JStr ''4.7'')]"

text \<open>A body with \<open>teaching = 6\<close> and the given \<open>evaluation\<close>.\<close>

definition objectBody :: "jsval \<Rightarrow> jsval" where
  "objectBody e =
     JObj [(''name'', JStr ''Dr. Rao''), (''teaching'', JNum (Fin 6)), (''evaluation'', e),
           (''behaviour'', JNum (Fin 5)), (''internals'', JNum (Fin 3)),
           (''classAverage'', JNum (Fin 72)), (''overall'', JNum (Fin 4))]"

definition facultyBody :: jsval where
  "facultyBody =
     JObj [(''name'', JStr '' Dr. Iyer ''), (''department'', JStr ''ECE''),
           (''subject'', JStr ''Signals'')]"

text \<open>A body whose teaching rating is the number 4.7.\<close>

definition numericBody :: jsval where
  "numericBody = reviewBody (JNum (round_double (47 / 10))) (JStr ''72.5'')"

section \<open>Properties\<close>

subsection \<open>Strings\<close>

lemma includes_iff_sublist: "includes_str s t \<longleftrightarrow> sublist t s"
proof (induction s)
  case Nil
  show ?case by simp
next
  case (Cons c cs)
  show ?case using Cons.IH by (simp add: sublist_Cons_right)
qed

lemma truthy_cell_iff:
  "truthy_cell (cell r 0) \<longleftrightarrow> (\<exists>s. cell r 0 = Some s \<and> s \<noteq> [])"
  by (cases "cell r 0") (simp_all add: truthy_cell_def)

subsection \<open>Search\<close>

lemma searchFaculty_v2_is_search_spec: "searchFaculty_v2 R t = search_spec R t"
  by (simp add: searchFaculty_v2_def search_spec_def Let_def includes_iff_sublist)

text \<open>
  Claim C2. For all rosters \<open>R\<close> and search terms \<open>t\<close>, the search returns exactly the
  records for which the trimmed lower-cased \<open>t\<close> is a substring of the lower-cased name,
  department or subject, in the order of \<open>R\<close>. The later variant does so
  (\<open>searchFaculty_v2_is_search_spec\<close>); the first variant lower-cases the term and does
  not trim it, so for the roster of Dr. Rao and the term \<open>rao\<close> followed by a space it
  returns nothing, where the specified search returns Dr. Rao.
\<close>

theorem searchFaculty_v1_keeps_whitespace:
  "searchFaculty_v1 [rao] ''rao '' = [] \<and> search_spec [rao] ''rao '' = [rao]"
  by code_simp

subsection \<open>Matching policies\<close>





subsection \<open>The derived roster\<close>

lemma foldl_Set_values:
  "foldl (\<lambda>seen x. if x \<in> set seen then seen else seen @ [x]) seen xs
     = seen @ filter (\<lambda>x. x \<notin> set seen) (first_occurrences xs)"
proof (induction xs arbitrary: seen)
  case Nil
  show ?case by simp
next
  case (Cons x xs)
  show ?case
  proof (cases "x \<in> set seen")
    case True
    have "filter (\<lambda>y. y \<notin> set seen) (filter (\<lambda>y. y \<noteq> x) (first_occurrences xs))
            = filter (\<lambda>y. y \<notin> set seen) (first_occurrences xs)"
      using True by (auto intro: filter_cong)
    with True Cons.IH[of seen] show ?thesis by simp
  next
    case False
    have "filter (\<lambda>y. y \<notin> set (seen @ [x])) (first_occurrences xs)
            = filter (\<lambda>y. y \<notin> set seen) (filter (\<lambda>y. y \<noteq> x) (first_occurrences xs))"
      by (auto intro: filter_cong)
    with False Cons.IH[of "seen @ [x]"] show ?thesis by simp
  qed
qed

lemma Set_values_first_occurrences: "Set_values xs = first_occurrences xs"
  by (simp add: Set_values_def foldl_Set_values)

lemma set_first_occurrences: "set (first_occurrences xs) = set xs"
  by (induction xs) auto

lemma distinct_first_occurrences: "distinct (first_occurrences xs)"
  by (induction xs) (auto simp: set_first_occurrences)

lemma first_occurrences_map_inj:
  "inj_on f (set xs) \<Longrightarrow> first_occurrences (map f xs) = map f (first_occurrences xs)"
proof (induction xs)
  case Nil
  show ?case by simp
next
  case (Cons x xs)
  have inj: "inj_on f (set xs)" using Cons.prems by (simp add: inj_on_def)
  have "filter (\<lambda>y. y \<noteq> f x) (map f (first_occurrences xs))
          = map f (filter (\<lambda>y. y \<noteq> x) (first_occurrences xs))"
    unfolding filter_map comp_def
    using Cons.prems
    by (intro arg_cong[where f="map f"] filter_cong)
       (auto simp: set_first_occurrences inj_on_def)
  with Cons.IH[OF inj] show ?case by simp
qed

lemma truthy_first_cells:
  "filter truthy_cell (map (\<lambda>row. cell row 0) rows) = map Some (firstColumn rows)"
  by (induction rows) (auto simp: firstColumn_def truthy_cell_def split: option.splits)

lemma uniqueNames_spec: "uniqueNames rows = map Some (first_occurrences (firstColumn rows))"
  by (simp add: uniqueNames_def Set_values_first_occurrences truthy_first_cells
      first_occurrences_map_inj)

lemma enumerate_map: "enumerate n (map f xs) = map (\<lambda>(i, x). (i, f x)) (enumerate n xs)"
  by (induction xs arbitrary: n) auto

lemma getFacultyFromReviews_Values:
  "getFacultyFromReviews (Values v)
     = (Returns (derived_roster_spec (values_or_empty v)), [ReadReviewNames])"
  by (simp add: getFacultyFromReviews_def derived_roster_spec_def uniqueNames_spec
      enumerate_map placeholderRecord_def cell_value_def split_def comp_def)

lemma getFacultyFromReviews_returns: "\<exists>r. fst (getFacultyFromReviews rr) = Returns r"
  by (cases rr) (simp_all add: getFacultyFromReviews_def)

subsection \<open>The cache\<close>

lemma get_miss:
  "\<not> cacheFresh c now1 \<Longrightarrow>
     (if now1 - timestamp c < CACHE_DURATION then data c else None) = None"
  by (auto simp: cacheFresh_def)

lemma get_hit:
  "cacheFresh c now1 \<Longrightarrow>
     \<exists>d. data c = Some d \<and> getFacultyDataFromSheets c now1 now2 fr rr = (Returns d, c, [])"
  by (auto simp: cacheFresh_def getFacultyDataFromSheets_def)

text \<open>
  Claim C5. When \<open>get()\<close> goes to the source (the cache entry is not fresh) and the
  read of the roster fails, it returns the roster derived from the first column of the
  review source: the names deduplicated in the order of their first occurrence, each
  in a record with the placeholder department, subject and mobile. When the fallback
  read fails too it returns the empty sequence. Whatever the cache, the clock and the
  outcomes of the reads are, \<open>get()\<close> returns and does not throw.
\<close>

theorem roster_fallback:
  assumes "\<not> cacheFresh c now1"
  shows "getFacultyDataFromSheets c now1 now2 ReadFails (Values v)
           = (Returns (derived_roster_spec (values_or_empty v)), c,
              [ReadFaculty, ReadReviewNames])
       \<and> getFacultyDataFromSheets c now1 now2 ReadFails ReadFails
           = (Returns [], c, [ReadFaculty, ReadReviewNames])
       \<and> (\<forall>now1' facultyRead reviewNamesRead.
            \<exists>r. fst (getFacultyDataFromSheets c now1' now2 facultyRead reviewNamesRead)
                  = Returns r)"
proof (intro conjI allI)
  show "getFacultyDataFromSheets c now1 now2 ReadFails (Values v)
           = (Returns (derived_roster_spec (values_or_empty v)), c,
              [ReadFaculty, ReadReviewNames])"
    by (simp add: getFacultyDataFromSheets_def get_miss[OF assms]
        getFacultyFromReviews_Values)
  show "getFacultyDataFromSheets c now1 now2 ReadFails ReadFails
           = (Returns [], c, [ReadFaculty, ReadReviewNames])"
    by (simp add: getFacultyDataFromSheets_def get_miss[OF assms] getFacultyFromReviews_def)
next
  fix now1' facultyRead reviewNamesRead
  show "\<exists>r. fst (getFacultyDataFromSheets c now1' now2 facultyRead reviewNamesRead)
              = Returns r"
  proof (cases "cacheFresh c now1'")
    case True
    from get_hit[OF True, of now2 facultyRead reviewNamesRead] show ?thesis by auto
  next
    case False
    show ?thesis
    proof (cases facultyRead)
      case ReadFails
      obtain r where "fst (getFacultyFromReviews reviewNamesRead) = Returns r"
        using getFacultyFromReviews_returns by blast
      then show ?thesis
        by (simp add: getFacultyDataFromSheets_def get_miss[OF False] ReadFails split_def)
    next
      case (Values v)
      then show ?thesis
        by (simp add: getFacultyDataFromSheets_def get_miss[OF False])
    qed
  qed
qed

lemma derived_roster_of_reviewNames:
  "derived_roster_spec reviewNames =
     [\<lparr>id_field = 1, name = ''Dr. Rao'', department = ''Not specified'',
       subject = ''Not specified'', mobile = ''Not available''\<rparr>,
      \<lparr>id_field = 2, name = ''Dr. Singh'', department = ''Not specified'',
       subject = ''Not specified'', mobile = ''Not available''\<rparr>]"
  by code_simp

theorem roster_fallback_witness:
  "\<not> cacheFresh initialCache noon \<and>
   getFacultyDataFromSheets initialCache noon noon ReadFails (Values (Some reviewNames))
     = (Returns [\<lparr>id_field = 1, name = ''Dr. Rao'', department = ''Not specified'',
                  subject = ''Not specified'', mobile = ''Not available''\<rparr>,
                 \<lparr>id_field = 2, name = ''Dr. Singh'', department = ''Not specified'',
                  subject = ''Not specified'', mobile = ''Not available''\<rparr>],
        initialCache, [ReadFaculty, ReadReviewNames])"
proof -
  have h: "\<not> cacheFresh initialCache noon"
    by (simp add: cacheFresh_def initialCache_def)
  from roster_fallback[OF h, of noon "Some reviewNames"] h show ?thesis
    by (simp add: values_or_empty_def derived_roster_of_reviewNames)
qed

subsection \<open>Repopulation\<close>

lemma enumerate_nth: "enumerate 0 xs = map (\<lambda>i. (i, xs ! i)) [0..<length xs]"
  by (rule nth_equalityI) (simp_all add: nth_enumerate_eq)

lemma facultyData_by_index:
  "facultyData rows =
     map (\<lambda>i. rowToFaculty i (rows ! i)) (filter (\<lambda>i. keptRow (rows ! i)) [0..<length rows])"
  by (simp add: facultyData_def enumerate_nth filter_map comp_def rowToFaculty_def keptRow_def)

lemma facultyData_ids:
  "map id_field (facultyData rows)
     = map Suc (filter (\<lambda>i. keptRow (rows ! i)) [0..<length rows])"
  by (simp add: facultyData_by_index comp_def rowToFaculty_def)

lemma facultyData_ids_increasing: "sorted_wrt (<) (map id_field (facultyData rows))"
  unfolding facultyData_ids
  by (simp add: sorted_wrt_map sorted_wrt_filter)

lemma facultyData_names: "\<forall>f \<in> set (facultyData rows). trim (name f) \<noteq> []"
  by (simp add: facultyData_def)

lemma facultyData_ids_sequential:
  assumes "\<forall>row \<in> set rows. keptRow row"
  shows "map id_field (facultyData rows) = [1..<Suc (length rows)]"
proof -
  have "filter (\<lambda>i. keptRow (rows ! i)) [0..<length rows] = [0..<length rows]"
    using assms by (simp add: filter_id_conv)
  then show ?thesis
    by (simp add: facultyData_ids map_Suc_upt)
qed

lemma repopulation:
  "\<not> cacheFresh c now1 \<Longrightarrow>
     getFacultyDataFromSheets c now1 now2 (Values v) rr
       = (Returns (facultyData (values_or_empty v)),
          \<lparr>data = Some (facultyData (values_or_empty v)), timestamp = now2\<rparr>, [ReadFaculty])"
  by (simp add: getFacultyDataFromSheets_def get_miss)

text \<open>
  Claim C8, as stated, fails: the ids of a repopulated roster are not always
  \<open>1, 2, ..., n\<close>. The roster range with a blank name in its second row gives two
  records, with the ids 1 and 3.
\<close>

theorem repopulation_ids_counterexample:
  "fst (getFacultyDataFromSheets initialCache noon noon (Values (Some rosterWithBlank)) ReadFails)
     = Returns [\<lparr>id_field = 1, name = ''Dr. Rao'', department = ''CSE'', subject = '''',
                 mobile = ''''\<rparr>,
                \<lparr>id_field = 3, name = ''Dr. Singh'', department = ''EEE'', subject = '''',
                 mobile = ''''\<rparr>]"
  by code_simp

text \<open>
  Claim C8, amended. A successful repopulation (the cache entry is not fresh and the
  read of the roster range resolves) returns and stores the records of the rows whose
  trimmed name is not empty; the id of a record is one plus the position of its row in
  the range read, so the ids are strictly increasing, and they are \<open>1, 2, ..., n\<close> when
  no row of the range is dropped; every returned record has a non-empty name after
  trimming.
\<close>

theorem repopulation_ids:
  assumes "\<not> cacheFresh c now1"
  shows "\<exists>rs. getFacultyDataFromSheets c now1 now2 (Values v) rr
                = (Returns rs, \<lparr>data = Some rs, timestamp = now2\<rparr>, [ReadFaculty]) \<and>
              map id_field rs
                = map Suc (filter (\<lambda>i. keptRow (values_or_empty v ! i))
                                  [0..<length (values_or_empty v)]) \<and>
              sorted_wrt (<) (map id_field rs) \<and>
              (\<forall>f \<in> set rs. trim (name f) \<noteq> []) \<and>
              ((\<forall>row \<in> set (values_or_empty v). keptRow row) \<longrightarrow>
                 map id_field rs = [1..<Suc (length (values_or_empty v))])"
proof (intro exI conjI impI)
  show "getFacultyDataFromSheets c now1 now2 (Values v) rr
          = (Returns (facultyData (values_or_empty v)),
             \<lparr>data = Some (facultyData (values_or_empty v)), timestamp = now2\<rparr>,
             [ReadFaculty])"
    by (rule repopulation[OF assms])
  show "map id_field (facultyData (values_or_empty v))
          = map Suc (filter (\<lambda>i. keptRow (values_or_empty v ! i))
                            [0..<length (values_or_empty v)])"
    by (rule facultyData_ids)
  show "sorted_wrt (<) (map id_field (facultyData (values_or_empty v)))"
    by (rule facultyData_ids_increasing)
  show "\<forall>f \<in> set (facultyData (values_or_empty v)). trim (name f) \<noteq> []"
    by (rule facultyData_names)
next
  assume "\<forall>row \<in> set (values_or_empty v). keptRow row"
  then show "map id_field (facultyData (values_or_empty v))
               = [1..<Suc (length (values_or_empty v))]"
    by (rule facultyData_ids_sequential)
qed

subsection \<open>Serving from the cache\<close>

text \<open>
  Claim C3. Let a first \<open>get()\<close> run at the instant \<open>t1\<close>, and a second one at a
  later instant \<open>t2\<close> at which the cache entry left by the first is within the
  freshness window of five minutes (300000 ms), with no write in between (the second
  call starts from the cache the first one left). Then the second call returns the
  result of the first, leaves the cache as it is and issues no remote call, whatever
  the remote reads would have answered.
\<close>

theorem get_twice_within_window:
  assumes first: "getFacultyDataFromSheets c t1 t1' fr1 rr1 = (r1, c1, calls1)"
      and clock: "t1 \<le> t2"
      and fresh: "data c1 \<noteq> None \<and> t2 - timestamp c1 < 5 * 60 * 1000"
  shows "getFacultyDataFromSheets c1 t2 t2' fr2 rr2 = (r1, c1, [])"
proof -
  have fresh2: "cacheFresh c1 t2"
    using fresh by (simp add: cacheFresh_def CACHE_DURATION_def)
  from get_hit[OF fresh2, of t2' fr2 rr2] obtain d where
    d: "data c1 = Some d" and
    second: "getFacultyDataFromSheets c1 t2 t2' fr2 rr2 = (Returns d, c1, [])"
    by blast
  have "r1 = Returns d"
  proof (cases "cacheFresh c t1")
    case True
    from get_hit[OF True, of t1' fr1 rr1] first d show ?thesis by auto
  next
    case False
    show ?thesis
    proof (cases fr1)
      case (Values v)
      with first d show ?thesis
        by (auto simp: getFacultyDataFromSheets_def get_miss[OF False])
    next
      case ReadFails
      with first have "c1 = c"
        by (auto simp: getFacultyDataFromSheets_def get_miss[OF False] split: prod.splits)
      with False fresh2 clock have False
        by (auto simp: cacheFresh_def)
      then show ?thesis ..
    qed
  qed
  with second show ?thesis by simp
qed

lemma first_get:
  "getFacultyDataFromSheets initialCache noon (noon + 200) (Values (Some rosterWithBlank)) ReadFails
     = (Returns populated, \<lparr>data = Some populated, timestamp = noon + 200\<rparr>, [ReadFaculty])"
  by code_simp

theorem get_twice_within_window_witness:
  "getFacultyDataFromSheets initialCache noon (noon + 200) (Values (Some rosterWithBlank)) ReadFails
     = (Returns populated, \<lparr>data = Some populated, timestamp = noon + 200\<rparr>, [ReadFaculty]) \<and>
   noon \<le> noon + 299999 \<and>
   (data \<lparr>data = Some populated, timestamp = noon + 200\<rparr> \<noteq> None \<and>
    (noon + 299999) - timestamp \<lparr>data = Some populated, timestamp = noon + 200\<rparr>
      < 5 * 60 * 1000) \<and>
   getFacultyDataFromSheets \<lparr>data = Some populated, timestamp = noon + 200\<rparr> (noon + 299999)
       (noon + 300100) ReadFails ReadFails
     = (Returns populated, \<lparr>data = Some populated, timestamp = noon + 200\<rparr>, [])"
proof -
  have h2: "noon \<le> noon + 299999" by simp
  have h3: "data \<lparr>data = Some populated, timestamp = noon + 200\<rparr> \<noteq> None \<and>
    (noon + 299999) - timestamp \<lparr>data = Some populated, timestamp = noon + 200\<rparr>
      < 5 * 60 * 1000"
    by simp
  from get_twice_within_window[OF first_get h2 h3, of "noon + 300100" ReadFails ReadFails]
    first_get h2 h3
  show ?thesis by blast
qed

theorem repopulation_ids_witness:
  "\<not> cacheFresh initialCache noon \<and>
   (\<exists>rs. getFacultyDataFromSheets initialCache noon noon (Values (Some reviewNames)) ReadFails
            = (Returns rs, \<lparr>data = Some rs, timestamp = noon\<rparr>, [ReadFaculty]) \<and>
          map id_field rs = [1, 2, 3])"
proof -
  have h: "\<not> cacheFresh initialCache noon"
    by (simp add: cacheFresh_def initialCache_def)
  have kept: "\<forall>row \<in> set (values_or_empty (Some reviewNames)). keptRow row"
    by code_simp
  have len: "[1..<Suc (length (values_or_empty (Some reviewNames)))] = [1, 2, 3]"
    by code_simp
  from repopulation_ids[OF h, of noon "Some reviewNames" ReadFails] kept len h
  show ?thesis by auto
qed

subsection \<open>Conversions that throw\<close>

lemma andThen_Gives: "andThen r f = Gives y \<longleftrightarrow> (\<exists>x. r = Gives x \<and> f x = Gives y)"
  by (cases r) (simp_all add: andThen_def)

lemma andThen_Raises:
  "andThen r f = Raises m \<longleftrightarrow> r = Raises m \<or> (\<exists>x. r = Gives x \<and> f x = Raises m)"
  by (cases r) (simp_all add: andThen_def)

lemma inOrder_Raises: "inOrder rs = Raises m \<Longrightarrow> Raises m \<in> set rs"
  by (induction rs) (auto simp: andThen_Raises)

lemma inOrder_Gives: "inOrder rs = Gives xs \<longleftrightarrow> rs = map Gives xs"
  by (induction rs arbitrary: xs) (auto simp: andThen_Gives)

lemma ToString_Raises:
  "ToString v = Raises m \<Longrightarrow> m = ''Cannot convert object to primitive value''"
proof (induction v arbitrary: m rule: ToString.induct)
  case (6 vs)
  from "6.prems" have "inOrder (map (\<lambda>v. if v = JUndefined \<or> v = JNull then Gives [] else ToString v) vs)
                       = Raises m"
    by (simp add: andThen_Raises)
  from inOrder_Raises[OF this] obtain v where
    v: "v \<in> set vs" "(if v = JUndefined \<or> v = JNull then Gives [] else ToString v) = Raises m"
    by auto
  then have "\<not> (v = JUndefined \<or> v = JNull)" "ToString v = Raises m"
    by (auto split: if_splits)
  with "6.IH"[OF v(1)] show ?case by blast
qed (simp_all split: if_splits)

lemma ToNumber_Raises:
  "ToNumber v = Raises m \<Longrightarrow> m = ''Cannot convert object to primitive value''"
  by (cases v) (auto simp: andThen_Raises dest: ToString_Raises simp del: ToString.simps)

lemma isNaN_Raises:
  "isNaN v = Raises m \<Longrightarrow> \<not> convertible v \<and> m = ''Cannot convert object to primitive value''"
  by (auto simp: isNaN_def andThen_Raises convertible_def dest: ToNumber_Raises)

lemma isNaN_Gives: "isNaN v = Gives b \<longleftrightarrow> (\<exists>n. ToNumber v = Gives n \<and> b = (n = NaN))"
  by (auto simp: isNaN_def andThen_Gives)

lemma convertible_iff: "convertible v \<longleftrightarrow> (\<exists>n. ToNumber v = Gives n)"
  by (cases "ToNumber v") (simp_all add: convertible_def)

lemma orElse_Raises: "orElse a b = Raises m \<Longrightarrow> a = Raises m \<or> b = Raises m"
  by (auto simp: orElse_def andThen_Raises split: if_splits)

lemma orElse_False: "orElse a b = Gives False \<longleftrightarrow> a = Gives False \<and> b = Gives False"
  by (cases a) (auto simp: orElse_def andThen_def)

lemma orElse_Gives: "orElse (Gives x) (Gives y) = Gives (x \<or> y)"
  by (simp add: orElse_def andThen_def)

lemma range_check:
  "ToNumber v = Gives n \<Longrightarrow>
     orElse (js_lt_num v (Fin 1)) (js_gt_num v (Fin 5))
       = Gives (js_less n (Fin 1) \<or> js_less (Fin 5) n)"
  by (simp add: js_lt_num_def js_gt_num_def andThen_def orElse_def)

lemma array_some_Gives:
  "\<forall>x \<in> set xs. \<exists>b. p x = Gives b \<Longrightarrow>
     array_some p xs = Gives (list_ex (\<lambda>x. p x = Gives True) xs)"
proof (induction xs)
  case Nil
  show ?case by simp
next
  case (Cons x xs)
  then obtain b where b: "p x = Gives b" by auto
  from Cons have "array_some p xs = Gives (list_ex (\<lambda>x. p x = Gives True) xs)" by simp
  with b show ?case by (simp add: orElse_Gives)
qed

subsection \<open>Validation of a review\<close>

lemma outside_not_undefined: "outsideRange (property b k) \<Longrightarrow> b \<noteq> JUndefined \<and> b \<noteq> JNull"
  by (auto simp: outsideRange_def property_def)

lemma submitReview_checks:
  assumes "b \<noteq> JUndefined" and "b \<noteq> JNull"
  shows "submitReview c b ts ao =
     (case orElse (Gives (\<not> ToBoolean (property b ''name'')))
             (orElse (isNaN (property b ''teaching'')) (orElse (isNaN (property b ''evaluation''))
               (orElse (isNaN (property b ''behaviour'')) (orElse (isNaN (property b ''internals''))
                 (orElse (isNaN (property b ''classAverage'')) (isNaN (property b ''overall''))))))) of
        Raises message \<Rightarrow> (submitReview_catch message, c, [])
      | Gives invalid \<Rightarrow>
          if invalid then (invalidInput, c, [])
          else
            (case array_some
                    (\<lambda>rating. orElse (js_lt_num rating (Fin 1)) (js_gt_num rating (Fin 5)))
                    [property b ''teaching'', property b ''evaluation'', property b ''behaviour'',
                     property b ''internals'', property b ''overall''] of
               Raises message \<Rightarrow> (submitReview_catch message, c, [])
             | Gives invalidRatings \<Rightarrow>
                 if invalidRatings then (invalidRange, c, [])
                 else
                   (case reviewRow b ts of
                      Raises message \<Rightarrow> (submitReview_catch message, c, [])
                    | Gives row \<Rightarrow>
                        (case ao of
                           AppendFails message \<Rightarrow> (submitReview_catch message, c, [AppendReview row])
                         | AppendOk \<Rightarrow>
                             (\<lparr>status = 200,
                               body = JObj [(''success'', JBool True),
                                 (''message'', JStr ''Review submitted successfully''),
                                 (''data'', JObj [(''faculty'', row ! 0),
                                    (''ratings'', JObj [(''teaching'', row ! 1),
                                       (''evaluation'', row ! 2),
                                       (''behaviour'', row ! 3),
                                       (''internals'', row ! 4),
                                       (''classAverage'', row ! 5),
                                       (''overall'', row ! 6)]),
                                    (''timestamp'', row ! 7)])]\<rparr>,
                              c\<lparr>timestamp := 0\<rparr>, [AppendReview row])))))"
  using assms
  unfolding submitReview_def Let_def invalidInput_def invalidRange_def reviewRow_def
  by (simp only: if_False)

lemma validation_cases:
  assumes "orElse (Gives x) (orElse (isNaN t) (orElse (isNaN e) (orElse (isNaN bh)
             (orElse (isNaN i) (orElse (isNaN ca) (isNaN ov)))))) = r"
  shows "(\<exists>invalid. r = Gives invalid \<and>
            (\<not> invalid \<longrightarrow> isNaN t = Gives False \<and> isNaN e = Gives False \<and>
               isNaN bh = Gives False \<and> isNaN i = Gives False \<and> isNaN ov = Gives False)) \<or>
         (r = Raises ''Cannot convert object to primitive value'' \<and>
            (\<not> convertible t \<or> \<not> convertible e \<or> \<not> convertible bh \<or> \<not> convertible i \<or>
             \<not> convertible ca \<or> \<not> convertible ov))"
proof (cases r)
  case (Raises m)
  with assms have "isNaN t = Raises m \<or> isNaN e = Raises m \<or> isNaN bh = Raises m \<or>
                   isNaN i = Raises m \<or> isNaN ca = Raises m \<or> isNaN ov = Raises m"
    by (auto dest!: orElse_Raises)
  then show ?thesis using Raises isNaN_Raises by blast
next
  case (Gives invalid)
  show ?thesis
  proof (cases invalid)
    case True
    with Gives show ?thesis by blast
  next
    case False
    with Gives assms show ?thesis by (auto simp: orElse_False)
  qed
qed

lemma outside_range_rejected:
  assumes "k \<in> set ratingFields" and "outsideRange (property reqBody k)"
  shows "(submitReview c reqBody ts ao = (invalidInput, c, []) \<or>
          submitReview c reqBody ts ao = (invalidRange, c, []) \<or>
          submitReview c reqBody ts ao = (conversionError, c, [])) \<and>
         ((\<forall>f \<in> set numberFields. convertible (property reqBody f)) \<longrightarrow>
            submitReview c reqBody ts ao = (invalidInput, c, []) \<or>
            submitReview c reqBody ts ao = (invalidRange, c, []))"
proof -
  let ?ratings = "[property reqBody ''teaching'', property reqBody ''evaluation'',
                   property reqBody ''behaviour'', property reqBody ''internals'',
                   property reqBody ''overall'']"
  let ?check = "\<lambda>rating. orElse (js_lt_num rating (Fin 1)) (js_gt_num rating (Fin 5))"
  from assms(2) have nb: "reqBody \<noteq> JUndefined" "reqBody \<noteq> JNull"
    using outside_not_undefined by blast+
  note unfold = submitReview_checks[OF nb, of c ts ao]
  define r where "r = orElse (Gives (\<not> ToBoolean (property reqBody ''name'')))
             (orElse (isNaN (property reqBody ''teaching'')) (orElse (isNaN (property reqBody ''evaluation''))
               (orElse (isNaN (property reqBody ''behaviour'')) (orElse (isNaN (property reqBody ''internals''))
                 (orElse (isNaN (property reqBody ''classAverage'')) (isNaN (property reqBody ''overall'')))))))"
  from validation_cases[OF r_def[symmetric]]
  consider (thrown) "r = Raises ''Cannot convert object to primitive value''"
      "\<not> convertible (property reqBody ''teaching'') \<or> \<not> convertible (property reqBody ''evaluation'') \<or>
       \<not> convertible (property reqBody ''behaviour'') \<or> \<not> convertible (property reqBody ''internals'') \<or>
       \<not> convertible (property reqBody ''classAverage'') \<or> \<not> convertible (property reqBody ''overall'')"
    | (invalid) "r = Gives True"
    | (numbers) "r = Gives False" "\<forall>v \<in> set ?ratings. isNaN v = Gives False"
    by (cases "r = Gives True") auto
  then show ?thesis
  proof cases
    case thrown
    from thrown(1) have "submitReview c reqBody ts ao = (conversionError, c, [])"
      unfolding unfold r_def[symmetric]
      by (simp add: conversionError_def submitReview_catch_def)
    moreover from thrown(2) have "\<not> (\<forall>f \<in> set numberFields. convertible (property reqBody f))"
      by (auto simp: numberFields_def)
    ultimately show ?thesis by blast
  next
    case invalid
    then have "submitReview c reqBody ts ao = (invalidInput, c, [])"
      unfolding unfold r_def[symmetric] by simp
    then show ?thesis by blast
  next
    case numbers
    have conv: "\<forall>v \<in> set ?ratings. \<exists>b. ?check v = Gives b"
    proof
      fix v assume "v \<in> set ?ratings"
      with numbers(2) have "isNaN v = Gives False" by blast
      then obtain n where "ToNumber v = Gives n" by (auto simp: isNaN_Gives)
      from range_check[OF this] show "\<exists>b. ?check v = Gives b" by blast
    qed
    have "property reqBody k \<in> set ?ratings"
      using assms(1) by (auto simp: ratingFields_def)
    moreover have "?check (property reqBody k) = Gives True"
    proof -
      from assms(2) obtain n where
        n: "ToNumber (property reqBody k) = Gives n" "js_less n (Fin 1) \<or> js_less (Fin 5) n"
        by (auto simp: outsideRange_def split: outcome.splits)
      from range_check[OF n(1)] n(2) show ?thesis by simp
    qed
    ultimately have "list_ex (\<lambda>v. ?check v = Gives True) ?ratings"
      unfolding list_ex_iff by blast
    with array_some_Gives[of ?ratings ?check, OF conv]
    have "array_some ?check ?ratings = Gives True" by simp
    with numbers(1) have "submitReview c reqBody ts ao = (invalidRange, c, [])"
      unfolding unfold r_def[symmetric] by simp
    then show ?thesis by blast
  qed
qed

text \<open>
  Claim C6. A submit-review request with a rating outside the range from 1 to 5, such
  as \<open>teaching = 6\<close>, is rejected with the status 400 and a validation error, no row is
  appended and the cache is not invalidated. The route does so whenever the
  conversions of its validation return (\<open>outside_range_rejected\<close>), and in every case
  it issues no remote call and returns the cache as it was. It misses the requests in
  which a conversion throws. In the body with \<open>teaching = 6\<close> whose evaluation is the
  object \<open>{"toString": 1}\<close>, \<open>isNaN(teaching)\<close> is false, \<open>isNaN(evaluation)\<close> throws a
  \<open>TypeError\<close>, and the \<open>catch\<close> of the route answers with the status 500, where the
  same validation answers with the status 400 when the evaluation is the object \<open>{}\<close>.
\<close>

theorem submit_unconvertible_field:
  "''teaching'' \<in> set ratingFields \<and>
   property (objectBody (JObj [(''toString'', JNum (Fin 1))])) ''teaching'' = JNum (Fin 6) \<and>
   outsideRange (property (objectBody (JObj [(''toString'', JNum (Fin 1))])) ''teaching'') \<and>
   submitReview staleCache (objectBody (JObj [(''toString'', JNum (Fin 1))])) ''now'' AppendOk
     = (conversionError, staleCache, []) \<and>
   status conversionError = 500 \<and>
   submitReview staleCache (objectBody (JObj [])) ''now'' AppendOk
     = (invalidInput, staleCache, []) \<and>
   status invalidInput = 400"
  by code_simp

text \<open>The request of the scenario, \<open>teaching = 6\<close> among valid fields, is rejected.\<close>

lemma six_outside: "outsideRange (property (reviewBody (JNum (Fin 6)) (JNum (Fin 72))) ''teaching'')"
  by code_simp

lemma six_rejected:
  "submitReview staleCache (reviewBody (JNum (Fin 6)) (JNum (Fin 72))) ''now'' AppendOk
     = (invalidRange, staleCache, []) \<and> status invalidRange = 400"
  by code_simp

subsection \<open>Writes and the cache\<close>

lemma submit_success:
  assumes "status (fst (submitReview c b ts ao)) = 200"
  shows "\<exists>r row. submitReview c b ts ao = (r, c\<lparr>timestamp := 0\<rparr>, [AppendReview row])"
  using assms
  unfolding submitReview_def Let_def errorResponse_def submitReview_catch_def
  by (auto split: if_splits outcome.splits append_outcome.splits)

lemma add_success:
  assumes "status (fst (addFaculty c b ao)) = 200"
  shows "\<exists>r row. addFaculty c b ao = (r, c\<lparr>timestamp := 0\<rparr>, [AppendFaculty row])"
  using assms
  unfolding addFaculty_def Let_def errorResponse_def addFaculty_catch_def
  by (auto split: if_splits outcome.splits append_outcome.splits)

lemma get_after_invalidate:
  assumes "CACHE_DURATION \<le> now1"
  shows "\<exists>rest. snd (snd (getFacultyDataFromSheets (c\<lparr>timestamp := 0\<rparr>) now1 now2 fr rr))
               = ReadFaculty # rest"
proof -
  have "\<not> cacheFresh (c\<lparr>timestamp := 0\<rparr>) now1"
    using assms by (simp add: cacheFresh_def)
  note miss = get_miss[OF this]
  show ?thesis
    unfolding getFacultyDataFromSheets_def miss
    by (cases fr; cases rr) (simp_all add: getFacultyFromReviews_def)
qed

text \<open>
  Claim C4. After a successful write (submit-review or add-faculty answered with the
  status 200, which appends exactly one row), the cache holds the timestamp 0 and the
  data it held before. The next \<open>get()\<close> then begins with a read of the roster range
  whatever the instant since the write: \<open>Date.now()\<close> counts the milliseconds since
  1970, and any instant from five minutes after the epoch on is later than the
  freshness window allows for the timestamp 0. Both writes do succeed: the example
  review and the example faculty member are appended and answered with 200.
\<close>

theorem write_invalidates_cache:
  assumes wr: "w = submitReview c b ts ao \<or> w = addFaculty c b ao"
      and success: "status (fst w) = 200"
      and clock: "5 * 60 * 1000 \<le> now1"
  shows "fst (snd w) = c\<lparr>timestamp := 0\<rparr> \<and>
         data (fst (snd w)) = data c \<and>
         (\<exists>row. snd (snd w) = [AppendReview row] \<or> snd (snd w) = [AppendFaculty row]) \<and>
         (\<exists>rest. snd (snd (getFacultyDataFromSheets (fst (snd w)) now1 now2 fr rr))
                   = ReadFaculty # rest)"
proof -
  from wr success obtain r row where
    w: "w = (r, c\<lparr>timestamp := 0\<rparr>, [AppendReview row]) \<or>
        w = (r, c\<lparr>timestamp := 0\<rparr>, [AppendFaculty row])"
    using submit_success add_success by metis
  have "CACHE_DURATION \<le> now1" using clock by (simp add: CACHE_DURATION_def)
  from get_after_invalidate[OF this, of c now2 fr rr] w show ?thesis by auto
qed

lemma submit_example:
  "submitReview staleCache (reviewBody (JStr ''4.7'') (JStr ''72.5'')) ''now'' AppendOk
     = (\<lparr>status = 200,
          body = JObj [(''success'', JBool True),
            (''message'', JStr ''Review submitted successfully''),
            (''data'', JObj [(''faculty'', JStr ''Dr. Rao''),
               (''ratings'', JObj [(''teaching'', JNum (Fin 4)), (''evaluation'', JNum (Fin 4)),
                  (''behaviour'', JNum (Fin 5)), (''internals'', JNum (Fin 3)),
                  (''classAverage'', JNum (Fin (145 / 2))), (''overall'', JNum (Fin 4))]),
               (''timestamp'', JStr ''now'')])]\<rparr>,
        \<lparr>data = Some [rao], timestamp = 0\<rparr>,
        [AppendReview [JStr ''Dr. Rao'', JNum (Fin 4), JNum (Fin 4), JNum (Fin 5), JNum (Fin 3),
                       JNum (Fin (145 / 2)), JNum (Fin 4), JStr ''now'']])"
  by code_simp

lemma add_example:
  "addFaculty staleCache facultyBody AppendOk
     = (\<lparr>status = 200,
          body = JObj [(''success'', JBool True),
            (''message'', JStr ''Faculty member added successfully''),
            (''data'', JObj [(''name'', JStr ''Dr. Iyer''), (''department'', JStr ''ECE''),
               (''subject'', JStr ''Signals''), (''mobile'', JStr '''')])]\<rparr>,
        \<lparr>data = Some [rao], timestamp = 0\<rparr>,
        [AppendFaculty [JStr ''Dr. Iyer'', JStr ''ECE'', JStr ''Signals'', JStr '''']])"
  by code_simp

theorem write_invalidates_cache_witness:
  "(status (fst (submitReview staleCache (reviewBody (JStr ''4.7'') (JStr ''72.5'')) ''now''
                   AppendOk)) = 200 \<and>
    5 * 60 * 1000 \<le> noon + 1 \<and>
    fst (snd (submitReview staleCache (reviewBody (JStr ''4.7'') (JStr ''72.5'')) ''now''
                AppendOk)) = staleCache\<lparr>timestamp := 0\<rparr> \<and>
    (\<exists>row. snd (snd (submitReview staleCache (reviewBody (JStr ''4.7'') (JStr ''72.5''))
                        ''now'' AppendOk)) = [AppendReview row]) \<and>
    (\<exists>rest. snd (snd (getFacultyDataFromSheets
                         (fst (snd (submitReview staleCache
                            (reviewBody (JStr ''4.7'') (JStr ''72.5'')) ''now'' AppendOk)))
                         (noon + 1) (noon + 2) ReadFails ReadFails)) = ReadFaculty # rest)) \<and>
   (status (fst (addFaculty staleCache facultyBody AppendOk)) = 200 \<and>
    fst (snd (addFaculty staleCache facultyBody AppendOk)) = staleCache\<lparr>timestamp := 0\<rparr> \<and>
    (\<exists>row. snd (snd (addFaculty staleCache facultyBody AppendOk)) = [AppendFaculty row]) \<and>
    (\<exists>rest. snd (snd (getFacultyDataFromSheets
                         (fst (snd (addFaculty staleCache facultyBody AppendOk)))
                         (noon + 1) (noon + 2) ReadFails ReadFails)) = ReadFaculty # rest))"
proof -
  let ?w = "submitReview staleCache (reviewBody (JStr ''4.7'') (JStr ''72.5'')) ''now'' AppendOk"
  let ?a = "addFaculty staleCache facultyBody AppendOk"
  have s: "status (fst ?w) = 200" by (simp add: submit_example)
  have a: "status (fst ?a) = 200" by (simp add: add_example)
  have ck: "5 * 60 * 1000 \<le> noon + 1" by (simp add: noon_def)
  have sr: "\<exists>row. snd (snd ?w) = [AppendReview row]" by (simp add: submit_example)
  have ar: "\<exists>row. snd (snd ?a) = [AppendFaculty row]" by (simp add: add_example)
  note W = write_invalidates_cache[of ?w staleCache _ "''now''" AppendOk, OF disjI1[OF refl] s ck,
      of "noon + 2" ReadFails ReadFails]
  note A = write_invalidates_cache[of ?a staleCache facultyBody _ AppendOk, OF disjI2[OF refl] a ck,
      of "noon + 2" ReadFails ReadFails]
  from W A s a ck sr ar show ?thesis by blast
qed

subsection \<open>Averages of a faculty without reviews\<close>

text \<open>
  Claim C7, as stated, fails: for a name without a matching review row the route
  answers with the status 200 and \<open>averages: null\<close>, but the envelope is not a success
  envelope: its \<open>success\<close> is \<open>false\<close>.
\<close>

theorem no_reviews_envelope_counterexample:
  "facultyAveragesRoute getFacultyAverages_v1 (Gives ''Dr. Bose'') (Values (Some reviews))
     = (\<lparr>status = 200,
          body = JObj [(''success'', JBool False), (''averages'', JNull),
                       (''message'', JStr ''No reviews found for Dr. Bose'')]\<rparr>, [ReadReviews])"
  by code_simp

text \<open>
  Claim C7, amended. When no review row matches the name, the averages are absent
  (\<open>null\<close>, not an error), in both variants, and the route answers with the status 200,
  not 404, and the envelope \<open>{success: false, averages: null, message}\<close>.
\<close>

theorem no_reviews_envelope:
  "(facultyReviews_v1 (values_or_empty v) nm = [] \<longrightarrow>
      getFacultyAverages_v1 nm (Values v) = (None, [ReadReviews]) \<and>
      facultyAveragesRoute getFacultyAverages_v1 (Gives nm) (Values v)
        = (notFoundEnvelope nm, [ReadReviews])) \<and>
   (facultyReviews_v2 (values_or_empty v) nm = [] \<longrightarrow>
      getFacultyAverages_v2 nm (Values v) = (None, [ReadReviews]) \<and>
      facultyAveragesRoute getFacultyAverages_v2 (Gives nm) (Values v)
        = (notFoundEnvelope nm, [ReadReviews]))"
  by (simp add: getFacultyAverages_v1_def getFacultyAverages_v2_def averagesOf_def
      facultyAveragesRoute_def notFoundEnvelope_def)

theorem no_reviews_envelope_witness:
  "facultyReviews_v1 (values_or_empty (Some reviews)) ''Dr. Bose'' = [] \<and>
   facultyReviews_v2 (values_or_empty (Some reviews)) ''Dr. Bose'' = [] \<and>
   getFacultyAverages_v1 ''Dr. Bose'' (Values (Some reviews)) = (None, [ReadReviews]) \<and>
   getFacultyAverages_v2 ''Dr. Bose'' (Values (Some reviews)) = (None, [ReadReviews]) \<and>
   status (fst (facultyAveragesRoute getFacultyAverages_v2 (Gives ''Dr. Bose'') (Values (Some reviews)))) = 200"
proof -
  have h1: "facultyReviews_v1 (values_or_empty (Some reviews)) ''Dr. Bose'' = []" by code_simp
  have h2: "facultyReviews_v2 (values_or_empty (Some reviews)) ''Dr. Bose'' = []" by code_simp
  from no_reviews_envelope[of "Some reviews" "''Dr. Bose''"] h1 h2
  show ?thesis by (simp add: notFoundEnvelope_def)
qed

subsection \<open>Powers of two and the binary logarithm\<close>

lemma pow2_powi: "pow2 e = 2 powi e"
  by (simp add: pow2_def power_int_def inverse_eq_divide power_one_over)

lemma pow2_pos: "0 < pow2 e"
  by (simp add: pow2_powi)

lemma pow2_add: "pow2 (a + b) = pow2 a * pow2 b"
  by (simp add: pow2_powi power_int_add)

lemma pow2_mono: "a \<le> b \<Longrightarrow> pow2 a \<le> pow2 b"
  by (simp add: pow2_powi power_int_increasing)

lemma pow2_nat: "pow2 (int n) = 2 ^ n"
  by (simp add: pow2_def)

lemma pow2_neg_nat: "pow2 (- int n) = 1 / 2 ^ n"
  by (simp add: pow2_powi power_int_minus inverse_eq_divide)

lemma pow2_less_imp: "pow2 a < pow2 b \<Longrightarrow> a < b"
  using pow2_mono[of b a] by (cases "a < b") auto

lemma pow2_ilog2_le:
  assumes "0 < q"
  shows "pow2 (ilog2 q) \<le> q"
proof (cases "1 \<le> q")
  case True
  then have fl: "0 < \<lfloor>q\<rfloor>" by simp
  then have b: "0 \<le> bitlen \<lfloor>q\<rfloor> - 1"
    using bitlen_ge_iff_power[of 1 "\<lfloor>q\<rfloor>"] by simp
  have "(2::int) ^ nat (bitlen \<lfloor>q\<rfloor> - 1) \<le> \<lfloor>q\<rfloor>"
    using bitlen_bounds[OF fl] by simp
  then have "(of_int ((2::int) ^ nat (bitlen \<lfloor>q\<rfloor> - 1)) :: rat) \<le> of_int \<lfloor>q\<rfloor>"
    by (simp only: of_int_le_iff)
  also have "\<dots> \<le> q" by simp
  finally show ?thesis using True b by (simp add: ilog2_def pow2_def)
next
  case False
  then have q1: "q < 1" by simp
  define c where "c = \<lceil>1 / q\<rceil>"
  have "1 < 1 / q" using assms q1 by simp
  then have c2: "2 \<le> c" unfolding c_def by linarith
  then have pos: "0 < c - 1" by simp
  have "c - 1 < 2 ^ nat (bitlen (c - 1))" using bitlen_bounds[OF pos] by simp
  then have cle: "c \<le> 2 ^ nat (bitlen (c - 1))" by simp
  have "1 / q \<le> of_int c" unfolding c_def by simp
  also have "\<dots> \<le> of_int (2 ^ nat (bitlen (c - 1)))" using cle by (simp only: of_int_le_iff)
  finally have "1 / q \<le> 2 ^ nat (bitlen (c - 1))" by simp
  then have "1 / 2 ^ nat (bitlen (c - 1)) \<le> q"
    using assms by (simp add: field_simps)
  moreover have "pow2 (- bitlen (c - 1)) = 1 / 2 ^ nat (bitlen (c - 1))"
    using pow2_neg_nat[of "nat (bitlen (c - 1))"] bitlen_nonneg[of "c - 1"] by simp
  ultimately show ?thesis using False
    by (simp add: ilog2_def c_def)
qed

subsection \<open>Rounding to binary64: error and exactness\<close>

lemma floor_frac_bounds: "0 \<le> x - of_int \<lfloor>x\<rfloor> \<and> x - of_int \<lfloor>x\<rfloor> < (1::rat)"
  by linarith

lemma roundHalfEven_cases:
  "roundHalfEven x = \<lfloor>x\<rfloor> \<and> x - of_int \<lfloor>x\<rfloor> \<le> 1 / 2 \<or>
   roundHalfEven x = \<lfloor>x\<rfloor> + 1 \<and> 1 / 2 \<le> x - of_int \<lfloor>x\<rfloor>"
  unfolding roundHalfEven_def Let_def by auto

lemma roundHalfEven_error: "\<bar>of_int (roundHalfEven x) - x\<bar> \<le> 1 / 2"
proof -
  have b: "0 \<le> x - of_int \<lfloor>x\<rfloor>" "x - of_int \<lfloor>x\<rfloor> < 1"
    using floor_frac_bounds[of x] by auto
  from roundHalfEven_cases[of x] show ?thesis
  proof
    assume "roundHalfEven x = \<lfloor>x\<rfloor> \<and> x - of_int \<lfloor>x\<rfloor> \<le> 1 / 2"
    with b show ?thesis by simp
  next
    assume h: "roundHalfEven x = \<lfloor>x\<rfloor> + 1 \<and> 1 / 2 \<le> x - of_int \<lfloor>x\<rfloor>"
    then have "of_int (roundHalfEven x) - x = 1 - (x - of_int \<lfloor>x\<rfloor>)" by simp
    with h b show ?thesis by simp
  qed
qed

lemma roundHalfEven_of_int: "roundHalfEven (of_int j) = j"
  by (simp add: roundHalfEven_def)

lemma roundHalfEven_ge: 
  assumes "of_int j \<le> x" shows "j \<le> roundHalfEven x"
proof -
  have "j \<le> \<lfloor>x\<rfloor>" using assms by (simp add: le_floor_iff)
  with roundHalfEven_cases[of x] show ?thesis by auto
qed

lemma roundHalfEven_le:
  assumes "x \<le> of_int j" shows "roundHalfEven x \<le> j"
proof (cases "x = of_int j")
  case True
  then show ?thesis by (simp add: roundHalfEven_of_int)
next
  case False
  with assms have "x < of_int j" by simp
  then have "\<lfloor>x\<rfloor> < j" by (simp add: floor_less_iff)
  with roundHalfEven_cases[of x] show ?thesis by auto
qed

lemma ulpOf_pos: "0 < ulpOf q"
  by (simp add: ulpOf_def pow2_pos)

lemma ilog2_less:
  assumes "0 < q" and "q < pow2 b"
  shows "ilog2 q < b"
  using pow2_ilog2_le[OF assms(1)] assms(2) pow2_less_imp[of "ilog2 q" b] by simp

lemma round_double_pos:
  assumes "0 < q" and "q < pow2 1023"
  shows "round_double q = Fin (of_int (roundHalfEven (q / ulpOf q)) * ulpOf q)"
proof -
  have "ilog2 q < 1023" using ilog2_less[OF assms] .
  then have e: "expOf q < 1023" by (simp add: expOf_def)
  show ?thesis
    using assms(1) e by (auto simp: round_double_def Let_def expOf_def ulpOf_def)
qed

lemma round_double_error:
  assumes "0 < q" and "q < pow2 1023"
  shows "\<exists>r. round_double q = Fin r \<and> 0 \<le> r \<and>
             \<bar>r - q\<bar> \<le> max (q / 2 ^ 53) (1 / 2 ^ 1075)"
proof -
  define u where "u = ulpOf q"
  define r where "r = of_int (roundHalfEven (q / u)) * u"
  have u: "0 < u" by (simp add: u_def ulpOf_pos)
  have rd: "round_double q = Fin r"
    using round_double_pos[OF assms] by (simp add: r_def u_def)
  have "0 \<le> q / u" using assms(1) u by simp
  then have "0 \<le> roundHalfEven (q / u)"
    using roundHalfEven_ge[of 0 "q / u"] by simp
  then have r0: "0 \<le> r" using u by (simp add: r_def)
  have "r - q = (of_int (roundHalfEven (q / u)) - q / u) * u"
    using u by (simp add: r_def field_simps)
  then have "\<bar>r - q\<bar> = \<bar>of_int (roundHalfEven (q / u)) - q / u\<bar> * u"
    using u by (simp add: abs_mult)
  also have "\<dots> \<le> (1 / 2) * u"
    using roundHalfEven_error[of "q / u"] u by (intro mult_right_mono) simp_all
  finally have err: "\<bar>r - q\<bar> \<le> u / 2" by simp
  have "u / 2 \<le> max (q / 2 ^ 53) (1 / 2 ^ 1075)"
  proof (cases "- 1022 \<le> ilog2 q")
    case True
    then have "u = pow2 (ilog2 q + (- 52))" by (simp add: u_def ulpOf_def expOf_def)
    also have "\<dots> = pow2 (ilog2 q) * pow2 (- 52)" by (rule pow2_add)
    also have "\<dots> \<le> q * pow2 (- 52)"
      using pow2_ilog2_le[OF assms(1)] pow2_pos[of "- 52"] by (intro mult_right_mono) simp_all
    finally have "u / 2 \<le> q * pow2 (- 52) / 2" by simp
    also have "\<dots> = q / 2 ^ 53" using pow2_neg_nat[of 52] by simp
    finally show ?thesis by simp
  next
    case False
    then have "u = pow2 (- 1074)" by (simp add: u_def ulpOf_def expOf_def)
    then have "u / 2 = 1 / 2 ^ 1075" using pow2_neg_nat[of 1074] by simp
    then show ?thesis by simp
  qed
  with err have "\<bar>r - q\<bar> \<le> max (q / 2 ^ 53) (1 / 2 ^ 1075)" by linarith
  with rd r0 show ?thesis by blast
qed

lemma round_double_exact:
  assumes "0 < q" and "q < pow2 1023" and "q / ulpOf q = of_int j"
  shows "round_double q = Fin q"
proof -
  have "of_int (roundHalfEven (q / ulpOf q)) * ulpOf q = of_int j * ulpOf q"
    by (simp add: assms(3) roundHalfEven_of_int)
  also have "\<dots> = q / ulpOf q * ulpOf q" by (simp add: assms(3))
  also have "\<dots> = q" using ulpOf_pos[of q] by simp
  finally show ?thesis using round_double_pos[OF assms(1,2)] by simp
qed

lemma ulpOf_small:
  assumes "0 < q" and "q < 2 ^ 53"
  shows "\<exists>n. ulpOf q = 1 / 2 ^ n"
proof -
  have "q < pow2 53" using assms(2) pow2_nat[of 53] by simp
  then have "ilog2 q < 53" using ilog2_less[OF assms(1)] by simp
  then have "expOf q - 52 \<le> 0" by (simp add: expOf_def)
  then have "ulpOf q = pow2 (- int (nat (52 - expOf q)))" by (simp add: ulpOf_def)
  then show ?thesis using pow2_neg_nat by metis
qed

lemma pow2_1023: "(2::rat) ^ 53 < pow2 1023"
proof -
  have "pow2 53 \<le> pow2 1023" by (rule pow2_mono) simp
  moreover have "pow2 53 \<noteq> pow2 1023"
    using pow2_less_imp[of 1023 53] pow2_mono[of 53 1023] by (simp add: pow2_powi)
  ultimately show ?thesis using pow2_nat[of 53] by simp
qed

lemma round_double_of_int:
  assumes "0 \<le> k" and "k < 2 ^ 53"
  shows "round_double (of_int k) = Fin (of_int k)"
proof (cases "k = 0")
  case True
  then show ?thesis by (simp add: round_double_def)
next
  case False
  with assms have pos: "0 < (of_int k :: rat)" by simp
  have lt: "(of_int k :: rat) < 2 ^ 53"
    using assms(2) by (metis of_int_less_iff of_int_numeral of_int_power)
  obtain n where n: "ulpOf (of_int k) = 1 / 2 ^ n" using ulpOf_small[OF pos lt] by blast
  have "of_int k / ulpOf (of_int k) = (of_int (k * 2 ^ n) :: rat)" by (simp add: n)
  moreover have "(of_int k :: rat) < pow2 1023" using lt pow2_1023 by simp
  ultimately show ?thesis using round_double_exact[OF pos] by blast
qed

lemma round_double_ge_int:
  assumes "0 < q" and "q < 2 ^ 53" and "of_int j \<le> q"
  shows "\<exists>r. round_double q = Fin r \<and> of_int j \<le> r"
proof -
  obtain n where n: "ulpOf q = 1 / 2 ^ n" using ulpOf_small[OF assms(1,2)] by blast
  have lt: "q < pow2 1023" using assms(2) pow2_1023 by simp
  have "of_int (j * 2 ^ n) \<le> q / ulpOf q" using assms(3) by (simp add: n)
  then have "j * 2 ^ n \<le> roundHalfEven (q / ulpOf q)" by (rule roundHalfEven_ge)
  then have "(of_int (j * 2 ^ n) :: rat) \<le> of_int (roundHalfEven (q / ulpOf q))"
    by (simp only: of_int_le_iff)
  then have "(of_int (j * 2 ^ n) :: rat) * ulpOf q \<le> of_int (roundHalfEven (q / ulpOf q)) * ulpOf q"
    using ulpOf_pos[of q] by (intro mult_right_mono) simp_all
  then have "of_int j \<le> of_int (roundHalfEven (q / ulpOf q)) * ulpOf q" by (simp add: n)
  with round_double_pos[OF assms(1) lt] show ?thesis by simp
qed

subsection \<open>One fraction digit\<close>

lemma decimal_small: "n < 10 \<Longrightarrow> decimal n = [digitChar n]"
  by (simp add: decimal.simps)

lemma decimal_large: "10 \<le> n \<Longrightarrow> decimal n = decimal (n div 10) @ [digitChar (n mod 10)]"
  by (subst decimal.simps) simp

lemma digitChar_0: "digitChar 0 = CHR ''0''"
  by code_simp

lemma toFixed_digits_1:
  assumes "0 \<le> m" and "m < 10 ^ 21"
  shows "toFixed_digits m 1 = fixed1 \<lfloor>m * 10 + 1 / 2\<rfloor>"
proof -
  define n where "n = \<lfloor>m * 10 + 1 / 2\<rfloor>"
  define ds where "ds = (if n = 0 then ''0'' else decimal n)"
  define ds' where "ds' = (if length ds \<le> 1 then replicate (2 - length ds) CHR ''0'' @ ds else ds)"
  have n0: "0 \<le> n" using assms(1) by (simp add: n_def)
  have nlt: "\<not> (10::rat) ^ 21 \<le> m" using assms(2) by simp
  have tf: "toFixed_digits m 1 = take (length ds' - 1) ds' @ ''.'' @ drop (length ds' - 1) ds'"
    using nlt by (simp add: toFixed_digits_def Let_def ds'_def ds_def n_def)
  show ?thesis
  proof (cases "n < 10")
    case True
    then have "decimal n = [digitChar n]" by (rule decimal_small)
    then have "ds = [digitChar n]" using digitChar_0 by (simp add: ds_def)
    then have "ds' = [CHR ''0'', digitChar n]" by (simp add: ds'_def numeral_2_eq_2)
    then have "toFixed_digits m 1 = ''0'' @ ''.'' @ [digitChar n]" unfolding tf by simp
    moreover have "n div 10 = 0" "n mod 10 = n" using True n0 by simp_all
    ultimately have "toFixed_digits m 1 = fixed1 n"
      using digitChar_0 by (simp add: fixed1_def decimal_small)
    then show ?thesis by (simp add: n_def)
  next
    case False
    then have ge: "10 \<le> n" by simp
    have d: "decimal n = decimal (n div 10) @ [digitChar (n mod 10)]"
      using ge by (rule decimal_large)
    have ne: "decimal (n div 10) \<noteq> []" by (subst decimal.simps) simp
    have "ds = decimal n" using ge by (simp add: ds_def)
    moreover have "\<not> length (decimal n) \<le> 1" using ne by (simp add: d)
    ultimately have "ds' = decimal (n div 10) @ [digitChar (n mod 10)]"
      using d by (simp add: ds'_def)
    then have "toFixed_digits m 1 = fixed1 n" unfolding tf by (simp add: fixed1_def)
    then show ?thesis by (simp add: n_def)
  qed
qed

lemma nearest_tenth:
  fixes m :: rat and S N :: nat
  assumes N: "0 < N" and close: "\<bar>m - of_nat S / of_nat N\<bar> < 1 / (20 * of_nat N)"
  shows "\<bar>(of_int \<lfloor>m * 10 + 1 / 2\<rfloor> :: rat) / 10 - of_nat S / of_nat N\<bar> \<le> 1 / 20"
proof -
  define d where "d = \<lfloor>m * 10 + 1 / 2\<rfloor>"
  define X where "X = 2 * d * int N - 20 * int S"
  have Np: "(0::rat) < of_nat N" using N by simp
  have fl: "of_int d \<le> m * 10 + 1 / 2" "m * 10 + 1 / 2 < of_int d + 1"
    unfolding d_def by linarith+
  then have dm: "\<bar>of_int d - m * 10\<bar> \<le> 1 / 2" by linarith
  define x where "x = m - of_nat S / of_nat N"
  have "m * 10 - 10 * (of_nat S / of_nat N) = 10 * x"
    by (simp add: x_def algebra_simps)
  then have "\<bar>m * 10 - 10 * (of_nat S / of_nat N)\<bar> = \<bar>10 * x\<bar>"
    by (simp only:)
  also have "\<dots> = 10 * \<bar>x\<bar>"
    by (simp add: abs_mult)
  also have "\<dots> = 10 * \<bar>m - of_nat S / of_nat N\<bar>"
    by (simp only: x_def)
  also have "\<dots> < 10 * (1 / (20 * of_nat N))" using close by simp
  finally have ms: "\<bar>m * 10 - 10 * (of_nat S / of_nat N)\<bar> < 1 / (2 * of_nat N)" by simp
  have "\<bar>(of_int d :: rat) - 10 * (of_nat S / of_nat N)\<bar> < 1 / 2 + 1 / (2 * of_nat N)"
    using dm ms by linarith
  then have "\<bar>(of_int d :: rat) - 10 * (of_nat S / of_nat N)\<bar> * (2 * of_nat N)
               < (1 / 2 + 1 / (2 * of_nat N)) * (2 * of_nat N)"
    using Np by (intro mult_strict_right_mono) simp_all
  moreover have "(1 / 2 + 1 / (2 * of_nat N)) * (2 * of_nat N) = (of_nat N + 1 :: rat)"
    using Np by (simp add: field_simps)
  moreover have "\<bar>(of_int d :: rat) - 10 * (of_nat S / of_nat N)\<bar> * (2 * of_nat N)
                  = \<bar>(of_int X :: rat)\<bar>"
  proof -
    have "(of_int X :: rat) = (of_int d - 10 * (of_nat S / of_nat N)) * (2 * of_nat N)"
      using Np by (simp add: X_def field_simps)
    then show ?thesis using Np by (simp add: abs_mult)
  qed
  ultimately have "\<bar>(of_int X :: rat)\<bar> < of_nat N + 1" by simp
  then have "(of_int \<bar>X\<bar> :: rat) < of_int (int N + 1)" by simp
  then have "\<bar>X\<bar> < int N + 1" by (simp only: of_int_less_iff)
  then have "\<bar>X\<bar> \<le> int N" by simp
  then have "(of_int \<bar>X\<bar> :: rat) \<le> of_int (int N)" by (simp only: of_int_le_iff)
  then have XN: "\<bar>(of_int X :: rat)\<bar> \<le> of_nat N" by simp
  have "(of_int d :: rat) / 10 - of_nat S / of_nat N = (of_int X :: rat) / (20 * of_nat N)"
    using Np by (simp add: X_def field_simps)
  then have "\<bar>(of_int d :: rat) / 10 - of_nat S / of_nat N\<bar>
               = \<bar>(of_int X :: rat)\<bar> / (20 * of_nat N)"
    using Np by (simp add: abs_divide del: of_int_abs)
  also have "\<dots> \<le> of_nat N / (20 * of_nat N)"
    using XN Np by (intro divide_right_mono) simp_all
  also have "\<dots> = 1 / 20" using Np by simp
  finally show ?thesis by (simp add: d_def)
qed

subsection \<open>Averages\<close>

lemma calculateAverage_alt:
  "calculateAverage frs index =
     (if validReviews index frs = [] then JNum (Fin 0) else JStr (toFixed (meanOf index frs) 1))"
  by (simp add: calculateAverage_def validReviews_def meanOf_def Let_def)

lemma of_nat_lt_2_53: "n < 2 ^ 53 \<Longrightarrow> int n < 2 ^ 53"
  by (metis of_nat_less_iff of_nat_numeral of_nat_power)

lemma js_add_nat:
  assumes "a + b < 2 ^ 53"
  shows "js_add (Fin (of_nat a)) (Fin (of_nat b)) = Fin (of_nat (a + b))"
proof -
  have "round_double (of_int (int (a + b))) = Fin (of_int (int (a + b)))"
    by (rule round_double_of_int) (use assms of_nat_lt_2_53 in auto)
  then show ?thesis by simp
qed

lemma foldl_sum_exact:
  assumes "entryValues index rows = map (\<lambda>k. Fin (of_nat k)) ks"
      and "acc + sum_list ks < 2 ^ 53"
  shows "foldl (\<lambda>sum row. js_add sum (parseFloat_str (cell_or_empty row index)))
           (Fin (of_nat acc)) rows = Fin (of_nat (acc + sum_list ks))"
  using assms
proof (induction rows arbitrary: acc ks)
  case Nil
  then show ?case by (simp add: entryValues_def)
next
  case (Cons row rows)
  from Cons.prems(1) obtain k ks' where ks: "ks = k # ks'"
    and k: "parseFloat_str (cell_or_empty row index) = Fin (of_nat k)"
    and rest: "entryValues index rows = map (\<lambda>k. Fin (of_nat k)) ks'"
    by (cases ks) (auto simp: entryValues_def)
  have b: "acc + k < 2 ^ 53" "(acc + k) + sum_list ks' < 2 ^ 53"
    using Cons.prems(2) ks by simp_all
  have "foldl (\<lambda>sum row. js_add sum (parseFloat_str (cell_or_empty row index)))
          (Fin (of_nat acc)) (row # rows)
        = foldl (\<lambda>sum row. js_add sum (parseFloat_str (cell_or_empty row index)))
            (Fin (of_nat (acc + k))) rows"
    using js_add_nat[OF b(1)] k by simp
  also have "\<dots> = Fin (of_nat ((acc + k) + sum_list ks'))"
    by (rule Cons.IH[OF rest b(2)])
  finally show ?case by (simp add: ks add.assoc)
qed

lemma sumEntries_exact:
  assumes "entryValues index rows = map (\<lambda>k. Fin (of_nat k)) ks"
      and "sum_list ks < 2 ^ 53"
  shows "sumEntries index rows = Fin (of_nat (sum_list ks))"
  using foldl_sum_exact[of index rows ks 0] assms by (simp add: sumEntries_def)

lemma mean_of_integers:
  fixes S N :: nat
  assumes N: "0 < N" "N < 2 ^ 32" and S: "S \<le> 2 ^ 48"
  shows "\<exists>m. round_double (of_nat S / of_nat N) = Fin m \<and> 0 \<le> m \<and> m < 10 ^ 21 \<and>
             \<bar>m - of_nat S / of_nat N\<bar> < 1 / (20 * of_nat N)"
proof (cases "S = 0")
  case True
  then show ?thesis using N by (simp add: round_double_def)
next
  case False
  define q :: rat where "q = of_nat S / of_nat N"
  have Np: "(0::rat) < of_nat N" and N1: "(1::rat) \<le> of_nat N" using N by simp_all
  have NB: "(of_nat N :: rat) < 2 ^ 32"
    using N(2) by (metis of_nat_less_iff of_nat_numeral of_nat_power)
  have SB: "(of_nat S :: rat) \<le> 2 ^ 48"
    using S by (metis of_nat_le_iff of_nat_numeral of_nat_power)
  have q0: "0 < q" using False Np by (simp add: q_def)
  have "(of_nat S :: rat) * 1 \<le> of_nat S * of_nat N"
    using N1 by (intro mult_left_mono) simp_all
  then have "q \<le> of_nat S" using Np by (simp add: q_def field_simps)
  then have qB: "q \<le> 2 ^ 48" using SB by simp
  then have "q < 2 ^ 53" by simp
  then have qlt: "q < pow2 1023" using pow2_1023 by simp
  from round_double_error[OF q0 qlt] obtain m where
    m: "round_double q = Fin m" "0 \<le> m" "\<bar>m - q\<bar> \<le> max (q / 2 ^ 53) (1 / 2 ^ 1075)"
    by blast
  have e1: "q / 2 ^ 53 < 1 / (20 * of_nat N)"
  proof -
    have "q / 2 ^ 53 = of_nat S / (2 ^ 53 * of_nat N)" by (simp add: q_def)
    also have "\<dots> \<le> 2 ^ 48 / (2 ^ 53 * of_nat N)"
      using SB Np by (intro divide_right_mono) simp_all
    also have "\<dots> < 1 / (20 * of_nat N)" using Np by (simp add: field_simps)
    finally show ?thesis .
  qed
  have e2: "(1::rat) / 2 ^ 1075 < 1 / (20 * of_nat N)"
  proof -
    have "20 * (of_nat N :: rat) < 20 * 2 ^ 32" using NB by simp
    also have "\<dots> < 2 ^ 1075" by simp
    finally show ?thesis using Np by (simp add: field_simps)
  qed
  have close: "\<bar>m - q\<bar> < 1 / (20 * of_nat N)" using m(3) e1 e2 by linarith
  have "1 / (20 * of_nat N) \<le> (1::rat)" using N1 by simp
  then have "m < q + 1" using close by linarith
  then have "m < 10 ^ 21" using qB by simp
  with m close show ?thesis unfolding q_def by blast
qed

lemma averagesOf_fields:
  assumes "averagesOf frs = Some a"
  shows "teaching a = calculateAverage frs 1 \<and> evaluation a = calculateAverage frs 2 \<and>
         behaviour a = calculateAverage frs 3 \<and> internals a = calculateAverage frs 4 \<and>
         classAverage a = calculateAverage frs 5 \<and> overall a = calculateAverage frs 6"
  using assms by (auto simp: averagesOf_def split: list.splits)

lemma average_none_valid:
  "validReviews index frs = [] \<Longrightarrow> calculateAverage frs index = JNum (Fin 0)"
  by (simp add: calculateAverage_alt)

lemma average_nonneg_mean:
  assumes "validReviews index frs \<noteq> []" and "meanOf index frs = Fin m"
      and "0 \<le> m" and "m < 10 ^ 21"
  shows "calculateAverage frs index = JStr (fixed1 \<lfloor>m * 10 + 1 / 2\<rfloor>)"
  using assms toFixed_digits_1[OF assms(3,4)] by (simp add: calculateAverage_alt)

lemma average_negative_mean:
  assumes "validReviews index frs \<noteq> []" and "meanOf index frs = Fin m"
      and "m < 0" and "- (10 ^ 21) < m"
  shows "calculateAverage frs index = JStr (''-'' @ fixed1 \<lfloor>- m * 10 + 1 / 2\<rfloor>)"
proof -
  have "0 \<le> - m" "- m < 10 ^ 21" using assms(3,4) by simp_all
  from toFixed_digits_1[OF this] assms(1,2,3) show ?thesis
    by (simp add: calculateAverage_alt)
qed

lemma average_of_integers:
  assumes ne: "validReviews index frs \<noteq> []"
      and len: "length (validReviews index frs) < 2 ^ 32"
      and ints: "entryValues index (validReviews index frs) = map (\<lambda>k. Fin (of_nat k)) ks"
      and total: "sum_list ks \<le> 2 ^ 48"
  shows "\<exists>d. calculateAverage frs index = JStr (fixed1 d) \<and>
             \<bar>(of_int d :: rat) / 10 - of_nat (sum_list ks) / of_nat (length ks)\<bar> \<le> 1 / 20"
proof -
  define N where "N = length (validReviews index frs)"
  define S where "S = sum_list ks"
  have lk: "length ks = N"
    using arg_cong[OF ints, of length] by (simp add: N_def entryValues_def)
  have N0: "0 < N" using ne by (simp add: N_def)
  have "S < 2 ^ 53"
  proof -
    have "(2::nat) ^ 48 < 2 ^ 53" by simp
    with total show ?thesis unfolding S_def by linarith
  qed
  then have sum: "sumEntries index (validReviews index frs) = Fin (of_nat S)"
    using sumEntries_exact[OF ints] by (simp add: S_def)
  have mean: "meanOf index frs = round_double (of_nat S / of_nat N)"
    using N0 by (simp add: meanOf_def sum N_def[symmetric])
  from mean_of_integers[of N S] N0 len total obtain m where
    m: "round_double (of_nat S / of_nat N) = Fin m" "0 \<le> m" "m < 10 ^ 21"
       "\<bar>m - of_nat S / of_nat N\<bar> < 1 / (20 * of_nat N)"
    unfolding N_def S_def by blast
  have "calculateAverage frs index = JStr (fixed1 \<lfloor>m * 10 + 1 / 2\<rfloor>)"
    using average_nonneg_mean[OF ne _ m(2,3)] mean m(1) by simp
  moreover have "\<bar>(of_int \<lfloor>m * 10 + 1 / 2\<rfloor> :: rat) / 10 - of_nat S / of_nat N\<bar> \<le> 1 / 20"
    by (rule nearest_tenth[OF N0 m(4)])
  ultimately show ?thesis unfolding S_def lk by blast
qed

text \<open>
  Claim C1. Each category average is the arithmetic mean of the entries of the category
  that are present and parse as finite numbers, rounded to one decimal digit, and
  exactly 0, never NaN, when there is no such entry. The program misses this where its
  filter and its sum read an entry differently. The review of \<open>A\<close> in \<open>blankRows\<close> has
  a teaching cell that holds one space: the filter of \<open>calculateAverage\<close> keeps the
  entry, because \<open>Number\<close> reads 0 in it, and the sum adds what \<open>parseFloat\<close> reads in
  it, which is NaN. Both variants return the string \<open>NaN\<close> as the teaching average,
  where the specified average is 0 (no entry parses as a finite number; 0 is also the
  mean if the space counts as the number 0). The evaluation cell \<open>4\<close> of the same row
  is averaged as specified. The filter does not test finiteness either: the entries
  \<open>Infinity\<close> and \<open>-Infinity\<close> of \<open>infiniteRows\<close> are kept and summed to NaN.
\<close>

theorem category_averages_diverge:
  "map_option teaching (fst (getFacultyAverages_v1 ''A'' (Values (Some blankRows))))
     = Some (JStr ''NaN'') \<and>
   map_option teaching (fst (getFacultyAverages_v2 ''A'' (Values (Some blankRows))))
     = Some (JStr ''NaN'') \<and>
   average_spec 1 blankRows = 0 \<and>
   map_option evaluation (fst (getFacultyAverages_v1 ''A'' (Values (Some blankRows))))
     = Some (JStr ''4.0'') \<and>
   average_spec 2 blankRows = 4 \<and>
   map_option teaching (fst (getFacultyAverages_v1 ''A'' (Values (Some infiniteRows))))
     = Some (JStr ''NaN'') \<and>
   map_option teaching (fst (getFacultyAverages_v2 ''A'' (Values (Some infiniteRows))))
     = Some (JStr ''NaN'') \<and>
   average_spec 1 infiniteRows = 0"
  by code_simp

text \<open>
  What \<open>calculateAverage\<close> does return. For the rows selected for a faculty, at least
  one, the six category averages are \<open>calculateAverage\<close> of the columns 1 to 6, and for
  every column: when no row has an entry that is not empty and that \<open>Number\<close> reads as a
  number (not NaN), the average is the number 0; otherwise it is a string, and when the
  computed mean (the binary64 sum of what \<open>parseFloat\<close> reads in these entries, divided
  by their count) is finite and below \<open>10^21\<close> in magnitude, the string is that mean
  rounded to the nearest tenth, a tie going away from zero, written with one fraction
  digit; in particular, when the entries read as non-negative integers whose total is
  at most \<open>2^48\<close> (fewer than \<open>2^32\<close> of them), the string is a decimal \<open>d / 10\<close> at a
  distance of at most \<open>1 / 20\<close> from their arithmetic mean.
\<close>

lemma calculateAverage_cases:
  assumes "averagesOf frs = Some a"
  shows "teaching a = calculateAverage frs 1 \<and> evaluation a = calculateAverage frs 2 \<and>
         behaviour a = calculateAverage frs 3 \<and> internals a = calculateAverage frs 4 \<and>
         classAverage a = calculateAverage frs 5 \<and> overall a = calculateAverage frs 6 \<and>
         (\<forall>index.
            (validReviews index frs = [] \<longrightarrow> calculateAverage frs index = JNum (Fin 0)) \<and>
            (\<forall>m. validReviews index frs \<noteq> [] \<and> meanOf index frs = Fin m \<and>
                  0 \<le> m \<and> m < 10 ^ 21 \<longrightarrow>
                  calculateAverage frs index = JStr (fixed1 \<lfloor>m * 10 + 1 / 2\<rfloor>)) \<and>
            (\<forall>m. validReviews index frs \<noteq> [] \<and> meanOf index frs = Fin m \<and>
                  m < 0 \<and> - (10 ^ 21) < m \<longrightarrow>
                  calculateAverage frs index = JStr (''-'' @ fixed1 \<lfloor>- m * 10 + 1 / 2\<rfloor>)) \<and>
            (\<forall>ks. validReviews index frs \<noteq> [] \<and> length (validReviews index frs) < 2 ^ 32 \<and>
                   entryValues index (validReviews index frs) = map (\<lambda>k. Fin (of_nat k)) ks \<and>
                   sum_list ks \<le> 2 ^ 48 \<longrightarrow>
                   (\<exists>d. calculateAverage frs index = JStr (fixed1 d) \<and>
                        \<bar>(of_int d :: rat) / 10 - of_nat (sum_list ks) / of_nat (length ks)\<bar>
                          \<le> 1 / 20)))"
proof -
  have props: "\<forall>index.
            (validReviews index frs = [] \<longrightarrow> calculateAverage frs index = JNum (Fin 0)) \<and>
            (\<forall>m. validReviews index frs \<noteq> [] \<and> meanOf index frs = Fin m \<and>
                  0 \<le> m \<and> m < 10 ^ 21 \<longrightarrow>
                  calculateAverage frs index = JStr (fixed1 \<lfloor>m * 10 + 1 / 2\<rfloor>)) \<and>
            (\<forall>m. validReviews index frs \<noteq> [] \<and> meanOf index frs = Fin m \<and>
                  m < 0 \<and> - (10 ^ 21) < m \<longrightarrow>
                  calculateAverage frs index = JStr (''-'' @ fixed1 \<lfloor>- m * 10 + 1 / 2\<rfloor>)) \<and>
            (\<forall>ks. validReviews index frs \<noteq> [] \<and> length (validReviews index frs) < 2 ^ 32 \<and>
                   entryValues index (validReviews index frs) = map (\<lambda>k. Fin (of_nat k)) ks \<and>
                   sum_list ks \<le> 2 ^ 48 \<longrightarrow>
                   (\<exists>d. calculateAverage frs index = JStr (fixed1 d) \<and>
                        \<bar>(of_int d :: rat) / 10 - of_nat (sum_list ks) / of_nat (length ks)\<bar>
                          \<le> 1 / 20))"
  proof (intro allI conjI impI)
    fix index
    assume "validReviews index frs = []"
    then show "calculateAverage frs index = JNum (Fin 0)" by (rule average_none_valid)
  next
    fix index m
    assume "validReviews index frs \<noteq> [] \<and> meanOf index frs = Fin m \<and> 0 \<le> m \<and> m < 10 ^ 21"
    then show "calculateAverage frs index = JStr (fixed1 \<lfloor>m * 10 + 1 / 2\<rfloor>)"
      using average_nonneg_mean by blast
  next
    fix index m
    assume "validReviews index frs \<noteq> [] \<and> meanOf index frs = Fin m \<and> m < 0 \<and> - (10 ^ 21) < m"
    then show "calculateAverage frs index = JStr (''-'' @ fixed1 \<lfloor>- m * 10 + 1 / 2\<rfloor>)"
      using average_negative_mean by blast
  next
    fix index ks
    assume "validReviews index frs \<noteq> [] \<and> length (validReviews index frs) < 2 ^ 32 \<and>
            entryValues index (validReviews index frs) = map (\<lambda>k. Fin (of_nat k)) ks \<and>
            sum_list ks \<le> 2 ^ 48"
    then show "\<exists>d. calculateAverage frs index = JStr (fixed1 d) \<and>
                 \<bar>(of_int d :: rat) / 10 - of_nat (sum_list ks) / of_nat (length ks)\<bar> \<le> 1 / 20"
      using average_of_integers by blast
  qed
  from averagesOf_fields[OF assms] props show ?thesis by (simp only: simp_thms)
qed

lemma ratedRows_averages: "averagesOf ratedRows = Some ratedAverages"
  by code_simp

lemma ratedRows_valid:
  "validReviews 1 ratedRows = ratedRows" "validReviews 2 ratedRows = []"
  "validReviews 3 ratedRows = [[''A'', ''1'', ''x'', ''-2'']]"
  by code_simp+

lemma ratedRows_values:
  "entryValues 1 ratedRows = map (\<lambda>k. Fin (of_nat k)) [1, 2]"
  by code_simp

lemma ratedRows_means: "meanOf 1 ratedRows = Fin (3 / 2)" "meanOf 3 ratedRows = Fin (- 2)"
  by code_simp+

lemma calculateAverage_example:
  "averagesOf ratedRows = Some ratedAverages \<and>
   (validReviews 2 ratedRows = [] \<and> evaluation ratedAverages = JNum (Fin 0)) \<and>
   (validReviews 1 ratedRows \<noteq> [] \<and> meanOf 1 ratedRows = Fin (3 / 2) \<and>
      (0::rat) \<le> 3 / 2 \<and> (3 / 2 :: rat) < 10 ^ 21 \<and>
      teaching ratedAverages = JStr (fixed1 \<lfloor>(3 / 2 :: rat) * 10 + 1 / 2\<rfloor>)) \<and>
   (validReviews 3 ratedRows \<noteq> [] \<and> meanOf 3 ratedRows = Fin (- 2) \<and>
      (- 2 :: rat) < 0 \<and> - (10 ^ 21) < (- 2 :: rat) \<and>
      behaviour ratedAverages = JStr (''-'' @ fixed1 \<lfloor>- (- 2 :: rat) * 10 + 1 / 2\<rfloor>)) \<and>
   (length (validReviews 1 ratedRows) < 2 ^ 32 \<and>
      entryValues 1 (validReviews 1 ratedRows) = map (\<lambda>k. Fin (of_nat k)) [1, 2] \<and>
      sum_list [1, 2 :: nat] \<le> 2 ^ 48 \<and>
      (\<exists>d. teaching ratedAverages = JStr (fixed1 d) \<and>
           \<bar>(of_int d :: rat) / 10 - of_nat (sum_list [1, 2 :: nat]) / of_nat (length [1, 2 :: nat])\<bar>
             \<le> 1 / 20))"
proof -
  note T = calculateAverage_cases[OF ratedRows_averages]
  have f1: "teaching ratedAverages = calculateAverage ratedRows 1"
    and f2: "evaluation ratedAverages = calculateAverage ratedRows 2"
    and f3: "behaviour ratedAverages = calculateAverage ratedRows 3"
    using T by blast+
  have v1: "validReviews 1 ratedRows \<noteq> []"
    unfolding ratedRows_valid(1) by (simp add: ratedRows_def)
  have v3: "validReviews 3 ratedRows \<noteq> []"
    unfolding ratedRows_valid(3) by simp
  have len: "length (validReviews 1 ratedRows) < 2 ^ 32"
    unfolding ratedRows_valid(1) by (simp add: ratedRows_def)
  have vals: "entryValues 1 (validReviews 1 ratedRows) = map (\<lambda>k. Fin (of_nat k)) [1, 2]"
    by (simp only: ratedRows_valid ratedRows_values)
  have total: "sum_list [1, 2 :: nat] \<le> 2 ^ 48" by simp
  have a2: "calculateAverage ratedRows 2 = JNum (Fin 0)"
    using T ratedRows_valid(2) by blast
  have a1: "calculateAverage ratedRows 1 = JStr (fixed1 \<lfloor>(3 / 2 :: rat) * 10 + 1 / 2\<rfloor>)"
  proof -
    have "validReviews 1 ratedRows \<noteq> [] \<and> meanOf 1 ratedRows = Fin (3 / 2) \<and>
          (0::rat) \<le> 3 / 2 \<and> (3 / 2 :: rat) < 10 ^ 21"
      using v1 ratedRows_means(1) by simp
    with T show ?thesis by blast
  qed
  have a3: "calculateAverage ratedRows 3 = JStr (''-'' @ fixed1 \<lfloor>- (- 2 :: rat) * 10 + 1 / 2\<rfloor>)"
  proof -
    have "validReviews 3 ratedRows \<noteq> [] \<and> meanOf 3 ratedRows = Fin (- 2) \<and>
          (- 2 :: rat) < 0 \<and> - (10 ^ 21) < (- 2 :: rat)"
      using v3 ratedRows_means(2) by simp
    with T show ?thesis by blast
  qed
  have a4: "\<exists>d. calculateAverage ratedRows 1 = JStr (fixed1 d) \<and>
           \<bar>(of_int d :: rat) / 10 - of_nat (sum_list [1, 2 :: nat]) / of_nat (length [1, 2 :: nat])\<bar>
             \<le> 1 / 20"
  proof -
    have "validReviews 1 ratedRows \<noteq> [] \<and> length (validReviews 1 ratedRows) < 2 ^ 32 \<and>
          entryValues 1 (validReviews 1 ratedRows) = map (\<lambda>k. Fin (of_nat k)) [1, 2] \<and>
          sum_list [1, 2 :: nat] \<le> 2 ^ 48"
      using v1 len vals total by blast
    with T show ?thesis by blast
  qed
  have m0: "(0::rat) \<le> 3 / 2 \<and> (3 / 2 :: rat) < 10 ^ 21" by simp
  have m3: "(- 2 :: rat) < 0 \<and> - (10 ^ 21) < (- 2 :: rat)" by simp
  show ?thesis
    using ratedRows_averages ratedRows_valid(2) ratedRows_means v1 v3 len vals total
      f1 f2 f3 a1 a2 a3 a4 m0 m3
    by (simp only: simp_thms)
qed

text \<open>
  A tie. Eleven ratings 1 and nine ratings 2 have the mean 1.45, a tie between 1.4 and
  1.5; the binary64 mean is just below 1.45, and the average is 1.4.
\<close>

lemma binary_tie:
  "calculateAverage (replicate 11 [''A'', ''1''] @ replicate 9 [''A'', ''2'']) 1 = JStr ''1.4''"
  by code_simp

subsection \<open>parseInt of a number\<close>

lemma digitChars:
  "digitChar 0 = CHR ''0''" "digitChar 1 = CHR ''1''" "digitChar 2 = CHR ''2''"
  "digitChar 3 = CHR ''3''" "digitChar 4 = CHR ''4''" "digitChar 5 = CHR ''5''"
  "digitChar 6 = CHR ''6''" "digitChar 7 = CHR ''7''" "digitChar 8 = CHR ''8''"
  "digitChar 9 = CHR ''9''"
  by code_simp+

lemma round_double_digits:
  "round_double 1 = Fin 1" "round_double 2 = Fin 2" "round_double 3 = Fin 3"
  "round_double 4 = Fin 4" "round_double 5 = Fin 5" "round_double 6 = Fin 6"
  "round_double 7 = Fin 7" "round_double 8 = Fin 8" "round_double 9 = Fin 9"
  using round_double_of_int[of 1] round_double_of_int[of 2] round_double_of_int[of 3]
    round_double_of_int[of 4] round_double_of_int[of 5] round_double_of_int[of 6]
    round_double_of_int[of 7] round_double_of_int[of 8] round_double_of_int[of 9]
  by simp_all

lemmas parseInt_str_unfold =
  parseInt_str_def trimStart_def isWhiteSpace_def signPart_def isRadixDigit_def
  radixDigit_def digitsValue_def Let_def

lemma parseInt_str_leading:
  assumes "1 \<le> d" and "d \<le> 9" and "tail = [] \<or> (\<exists>r. tail = CHR ''.'' # r)"
  shows "parseInt_str (digitChar d # tail) = Fin (of_int d)"
proof -
  from assms(1,2) consider "d = 1" | "d = 2" | "d = 3" | "d = 4" | "d = 5" | "d = 6"
    | "d = 7" | "d = 8" | "d = 9"
    by linarith
  then show ?thesis
  proof cases
    case 1 with assms(3) show ?thesis
      by (auto simp: digitChars parseInt_str_unfold round_double_digits)
  next
    case 2 with assms(3) show ?thesis
      by (auto simp: digitChars parseInt_str_unfold round_double_digits)
  next
    case 3 with assms(3) show ?thesis
      by (auto simp: digitChars parseInt_str_unfold round_double_digits)
  next
    case 4 with assms(3) show ?thesis
      by (auto simp: digitChars parseInt_str_unfold round_double_digits)
  next
    case 5 with assms(3) show ?thesis
      by (auto simp: digitChars parseInt_str_unfold round_double_digits)
  next
    case 6 with assms(3) show ?thesis
      by (auto simp: digitChars parseInt_str_unfold round_double_digits)
  next
    case 7 with assms(3) show ?thesis
      by (auto simp: digitChars parseInt_str_unfold round_double_digits)
  next
    case 8 with assms(3) show ?thesis
      by (auto simp: digitChars parseInt_str_unfold round_double_digits)
  next
    case 9 with assms(3) show ?thesis
      by (auto simp: digitChars parseInt_str_unfold round_double_digits)
  qed
qed

lemma decimal_leading:
  "10 ^ j \<le> s \<Longrightarrow> s < 10 ^ Suc j \<Longrightarrow>
     \<exists>rest. decimal s = digitChar (s div 10 ^ j) # rest \<and> length rest = j"
proof (induction j arbitrary: s)
  case 0
  then have "s < 10" by simp
  then show ?case by (simp add: decimal_small)
next
  case (Suc j)
  have ge: "10 \<le> s"
  proof -
    have a: "(10::int) \<le> 10 ^ Suc j" by simp
    show ?thesis by (rule order_trans[OF a Suc.prems(1)])
  qed
  have lo: "10 ^ j \<le> s div 10" using Suc.prems(1) by simp
  have hi: "s div 10 < 10 ^ Suc j" using Suc.prems(2) by simp
  from Suc.IH[OF lo hi] obtain rest where
    r: "decimal (s div 10) = digitChar (s div 10 div 10 ^ j) # rest" "length rest = j"
    by blast
  have "s div 10 div 10 ^ j = s div 10 ^ Suc j"
    using zdiv_zmult2_eq[of "10 ^ j" s 10] by simp
  with r have "decimal s = digitChar (s div 10 ^ Suc j) # (rest @ [digitChar (s mod 10)])"
    using decimal_large[OF ge] by simp
  with r(2) show ?case by simp
qed

lemma pow10_powi: "pow10 e = 10 powi e"
  by (simp add: pow10_def power_int_def inverse_eq_divide power_one_over)

lemma pow10_neg_nat: "pow10 (- int j) = 1 / 10 ^ j"
  by (simp add: pow10_powi power_int_minus inverse_eq_divide)

lemma divide_pow10_neg: "x / pow10 (- int j) = x * 10 ^ j"
  by (simp add: pow10_neg_nat)

lemma div_between:
  fixes n b d :: int
  assumes "d * b \<le> n" and "n < (d + 1) * b"
  shows "n div b = d"
proof -
  have b: "0 < b"
  proof (rule ccontr)
    assume "\<not> 0 < b"
    then have "(d + 1) * b \<le> d * b" by (simp add: algebra_simps)
    with assms show False by linarith
  qed
  have "n = b * d + (n - d * b)" by (simp add: algebra_simps)
  moreover have "0 \<le> n - d * b" using assms(1) by simp
  moreover have "n - d * b < b" using assms(2) by (simp add: algebra_simps)
  ultimately show ?thesis using int_div_pos_eq by blast
qed

lemma scaled_floor:
  fixes x :: rat and j :: nat
  assumes "1 \<le> x" and "x < 10"
  defines "lo \<equiv> \<lfloor>x * 10 ^ j\<rfloor>"
  shows "10 ^ j \<le> lo" and "lo < 10 ^ Suc j"
    and "\<lfloor>x\<rfloor> * 10 ^ j \<le> lo" and "lo < (\<lfloor>x\<rfloor> + 1) * 10 ^ j"
proof -
  have p: "(0::rat) < 10 ^ j" by simp
  have "(of_int (10 ^ j) :: rat) \<le> x * 10 ^ j" using assms(1) p by simp
  then show "10 ^ j \<le> lo" unfolding lo_def by (simp only: le_floor_iff)
  have "x * 10 ^ j < 10 * 10 ^ j" using assms(2) p by simp
  then have "x * 10 ^ j < of_int (10 ^ Suc j)" by simp
  then show "lo < 10 ^ Suc j" unfolding lo_def by (simp only: floor_less_iff)
  have "of_int \<lfloor>x\<rfloor> * (10::rat) ^ j \<le> x * 10 ^ j"
    using p by (intro mult_right_mono) simp_all
  then have "(of_int (\<lfloor>x\<rfloor> * 10 ^ j) :: rat) \<le> x * 10 ^ j" by simp
  then show "\<lfloor>x\<rfloor> * 10 ^ j \<le> lo" unfolding lo_def by (simp only: le_floor_iff)
  have "x < of_int (\<lfloor>x\<rfloor> + 1)" by linarith
  then have "x * 10 ^ j < of_int (\<lfloor>x\<rfloor> + 1) * 10 ^ j"
    using p by (intro mult_strict_right_mono) simp_all
  then have "x * 10 ^ j < of_int ((\<lfloor>x\<rfloor> + 1) * 10 ^ j)" by simp
  then show "lo < (\<lfloor>x\<rfloor> + 1) * 10 ^ j" unfolding lo_def by (simp only: floor_less_iff)
qed

lemma leadingDigits_floor:
  fixes x :: rat
  assumes "1 \<le> x" and "x < 10"
  shows "leadingDigits x (\<lfloor>x * 10 ^ j\<rfloor>, 1)"
  using scaled_floor[OF assms, of j] div_between[of "\<lfloor>x\<rfloor>" "10 ^ j" "\<lfloor>x * 10 ^ j\<rfloor>"]
  unfolding leadingDigits_def by auto

lemma digitCandidate_cases:
  assumes "digitCandidate a n0 k = Some sn"
  shows "sn = (\<lfloor>a / pow10 (n0 - int k)\<rfloor>, n0) \<or>
         (round_double (of_int (\<lfloor>a / pow10 (n0 - int k)\<rfloor> + 1) * pow10 (n0 - int k)) = Fin a \<and>
          (\<lfloor>a / pow10 (n0 - int k)\<rfloor> + 1 = 10 ^ k \<and> sn = (10 ^ (k - 1), n0 + 1) \<or>
           \<lfloor>a / pow10 (n0 - int k)\<rfloor> + 1 \<noteq> 10 ^ k \<and>
             sn = (\<lfloor>a / pow10 (n0 - int k)\<rfloor> + 1, n0)))"
  using assms unfolding digitCandidate_def Let_def
  by (auto split: if_splits)

lemma digitCandidate_leading:
  fixes x :: rat
  assumes x: "1 \<le> x" "x < 10" and c: "digitCandidate x 1 (Suc j) = Some sn"
  shows "leadingDigits x sn"
proof -
  define lo where "lo = \<lfloor>x * 10 ^ j\<rfloor>"
  define d where "d = \<lfloor>x\<rfloor>"
  have scale: "pow10 (1 - int (Suc j)) = 1 / 10 ^ j"
    using pow10_neg_nat[of j] by simp
  have "x / pow10 (1 - int (Suc j)) = x * 10 ^ j"
    using divide_pow10_neg[of x j] by simp
  then have lo': "\<lfloor>x / pow10 (1 - int (Suc j))\<rfloor> = lo" by (simp only: lo_def)
  note b = scaled_floor[OF x, of j, folded lo_def d_def]
  have xd: "x < of_int (d + 1)" unfolding d_def by linarith
  from digitCandidate_cases[OF c]
  have "sn = (lo, 1) \<or>
      (round_double (of_int (lo + 1) * (1 / 10 ^ j)) = Fin x \<and>
         (lo + 1 = 10 ^ Suc j \<and> sn = (10 ^ j, 2) \<or> lo + 1 \<noteq> 10 ^ Suc j \<and> sn = (lo + 1, 1)))"
    unfolding lo' scale by (simp add: lo_def)
  then consider (low) "sn = (lo, 1)"
    | (carry) "round_double (of_int (lo + 1) * (1 / 10 ^ j)) = Fin x" "lo + 1 = 10 ^ Suc j"
    | (high) "round_double (of_int (lo + 1) * (1 / 10 ^ j)) = Fin x" "lo + 1 \<noteq> 10 ^ Suc j"
        "sn = (lo + 1, 1)"
    by blast
  then show ?thesis
  proof cases
    case low
    then show ?thesis using leadingDigits_floor[OF x, of j] by (simp add: lo_def)
  next
    case carry
    have "(of_int (lo + 1) :: rat) * (1 / 10 ^ j) = of_int 10"
      by (simp add: carry(2))
    then have "round_double (of_int 10) = Fin x" using carry(1) by simp
    moreover have "round_double (of_int 10) = Fin (of_int 10)"
      by (rule round_double_of_int) simp_all
    ultimately have "x = 10" by simp
    with x(2) show ?thesis by simp
  next
    case high
    have le: "lo + 1 \<le> (d + 1) * 10 ^ j" using b(4) by simp
    have ne: "lo + 1 \<noteq> (d + 1) * 10 ^ j"
    proof
      assume e: "lo + 1 = (d + 1) * 10 ^ j"
      have "(of_int (lo + 1) :: rat) * (1 / 10 ^ j) = of_int (d + 1)"
        by (simp add: e)
      then have "round_double (of_int (d + 1)) = Fin x" using high(1) by simp
      moreover have "round_double (of_int (d + 1)) = Fin (of_int (d + 1))"
      proof (rule round_double_of_int)
        show "0 \<le> d + 1" using x(1) unfolding d_def by linarith
        have "d \<le> 9" using x(2) unfolding d_def by (simp add: floor_le_iff)
        then show "d + 1 < 2 ^ 53" by simp
      qed
      ultimately have "x = of_int (d + 1)" by simp
      with xd show False by simp
    qed
    have "(lo + 1) div 10 ^ j = d"
      using b(3) le ne by (intro div_between) simp_all
    moreover have "10 ^ j \<le> lo + 1" using b(1) by simp
    moreover have "lo + 1 < 10 ^ Suc j" using b(2) high(2) by simp
    ultimately show ?thesis using high(3) unfolding leadingDigits_def d_def by auto
  qed
qed

lemma shortestDigits_leading:
  fixes x :: rat
  assumes "1 \<le> x" and "x < 10" and "\<forall>k \<in> set ks. 1 \<le> k"
  shows "leadingDigits x (shortestDigits x 1 ks)"
  using assms(3)
proof (induction ks)
  case Nil
  have "x / pow10 (1 - 17) = x * 10 ^ 16" using divide_pow10_neg[of x 16] by simp
  then have "shortestDigits x 1 [] = (\<lfloor>x * 10 ^ 16\<rfloor>, 1)"
    by (simp only: shortestDigits.simps)
  then show ?case using leadingDigits_floor[OF assms(1,2), of 16] by simp
next
  case (Cons k ks)
  then obtain j where k: "k = Suc j" by (cases k) auto
  show ?case
  proof (cases "digitCandidate x 1 k")
    case None
    then show ?thesis using Cons by simp
  next
    case (Some sn)
    then show ?thesis
      using digitCandidate_leading[OF assms(1,2), of j sn] k by simp
  qed
qed

lemma decimalExponent_digit:
  fixes x :: rat
  assumes "1 \<le> x" and "x < 10"
  shows "decimalExponent x = 1"
proof -
  have "\<lfloor>x\<rfloor> < 10" using assms(2) by (simp add: floor_less_iff)
  then have "decimal \<lfloor>x\<rfloor> = [digitChar \<lfloor>x\<rfloor>]" by (rule decimal_small)
  then show ?thesis using assms(1) by (simp add: decimalExponent_def)
qed

lemma upt_ge_1: "\<forall>k \<in> set [1..<18]. 1 \<le> k"
  by simp

lemma numToString_pos_leading:
  fixes x :: rat
  assumes "1 \<le> x" and "x < 10"
  shows "\<exists>tail. numToString_pos x = digitChar \<lfloor>x\<rfloor> # tail \<and>
                (tail = [] \<or> (\<exists>r. tail = CHR ''.'' # r))"
proof -
  obtain s n where sn: "shortestDigits x 1 [1..<18] = (s, n)" by (cases "shortestDigits x 1 [1..<18]")
  from shortestDigits_leading[OF assms upt_ge_1] sn obtain j where
    n: "n = 1" and j: "10 ^ j \<le> s" "s < 10 ^ Suc j" "s div 10 ^ j = \<lfloor>x\<rfloor>"
    unfolding leadingDigits_def by auto
  from decimal_leading[OF j(1,2)] j(3) obtain rest where
    ds: "decimal s = digitChar \<lfloor>x\<rfloor> # rest" "length rest = j"
    by auto
  have nts: "numToString_pos x =
               (let ds = decimal s; k = int (length ds)
                in if k \<le> 1 \<and> (1::int) \<le> 21 then ds @ replicate (nat (1 - k)) CHR ''0''
                   else if (0::int) < 1 \<and> (1::int) \<le> 21 then take (nat 1) ds @ ''.'' @ drop (nat 1) ds
                   else if - 6 < (1::int) \<and> (1::int) \<le> 0 then ''0.'' @ replicate (nat (- 1)) CHR ''0'' @ ds
                   else (if k = 1 then ds else take 1 ds @ ''.'' @ drop 1 ds)
                        @ ''e'' @ (if (1::int) - 1 < 0 then ''-'' else ''+'') @ decimal \<bar>(1::int) - 1\<bar>)"
    unfolding numToString_pos_def decimalExponent_digit[OF assms] sn n by simp
  show ?thesis
  proof (cases j)
    case 0
    then have "rest = []" using ds(2) by simp
    then have "numToString_pos x = [digitChar \<lfloor>x\<rfloor>]"
      unfolding nts ds(1) by simp
    then show ?thesis by simp
  next
    case (Suc i)
    then have "numToString_pos x = digitChar \<lfloor>x\<rfloor> # CHR ''.'' # rest"
      unfolding nts ds(1) using ds(2) by simp
    then show ?thesis by simp
  qed
qed

lemma parseInt_number:
  fixes x :: rat
  assumes "1 \<le> x" and "x < 10"
  shows "parseInt (JNum (Fin x)) = Gives (Fin (of_int \<lfloor>x\<rfloor>))"
proof -
  from numToString_pos_leading[OF assms] obtain tail where
    t: "numToString_pos x = digitChar \<lfloor>x\<rfloor> # tail" "tail = [] \<or> (\<exists>r. tail = CHR ''.'' # r)"
    by blast
  have d: "1 \<le> \<lfloor>x\<rfloor>" "\<lfloor>x\<rfloor> \<le> 9"
    using assms by (simp_all add: le_floor_iff floor_le_iff)
  have "parseInt (JNum (Fin x)) = Gives (parseInt_str (numToString_pos x))"
    using assms(1) by (simp add: parseInt_def andThen_def)
  moreover have "parseInt_str (numToString_pos x) = Fin (of_int \<lfloor>x\<rfloor>)"
    unfolding t(1) by (rule parseInt_str_leading[OF d t(2)])
  ultimately show ?thesis by simp
qed

subsection \<open>The stored ratings\<close>

lemma submit_success_row:
  assumes "status (fst (submitReview c b ts ao)) = 200"
  shows "\<exists>row. reviewRow b ts = Gives row \<and>
               snd (snd (submitReview c b ts ao)) = [AppendReview row]"
  using assms
  unfolding submitReview_def Let_def errorResponse_def submitReview_catch_def reviewRow_def
  by (auto split: if_splits outcome.splits append_outcome.splits)

lemma reviewRow_Gives:
  assumes "reviewRow b ts = Gives row"
  shows "\<exists>nm t e bh i ca ov.
           property b ''name'' = JStr nm \<and>
           parseInt (property b ''teaching'') = Gives t \<and>
           parseInt (property b ''evaluation'') = Gives e \<and>
           parseInt (property b ''behaviour'') = Gives bh \<and>
           parseInt (property b ''internals'') = Gives i \<and>
           parseFloat (property b ''classAverage'') = Gives ca \<and>
           parseInt (property b ''overall'') = Gives ov \<and>
           row = [JStr (trim nm), JNum t, JNum e, JNum bh, JNum i, JNum ca, JNum ov, JStr ts]"
  using assms
  unfolding reviewRow_def reviewData_def
  by (auto simp: andThen_Gives trimValue_def split: jsval.splits)

lemma submit_success_valid:
  assumes "status (fst (submitReview c b ts ao)) = 200" and "k \<in> set ratingFields"
  shows "\<not> outsideRange (property b k)"
proof
  assume "outsideRange (property b k)"
  from outside_range_rejected[OF assms(2) this, of c ts ao] assms(1) show False
    by (auto simp: invalidInput_def invalidRange_def conversionError_def errorResponse_def)
qed

text \<open>
  Claim C10. A successful submit-review stores the five ratings as the integer
  truncations of the submitted values and the classAverage with its fraction. The
  program misses this where its validation and its storage read a value differently:
  the route validates the ratings as numbers (\<open>isNaN\<close>, \<open>< 1\<close>, \<open>> 5\<close> convert with
  \<open>Number\<close>) and stores what \<open>parseInt\<close> and \<open>parseFloat\<close> read in their text. The
  string \<open>0.5e1\<close> is the number 5 for the validation, the request is answered with 200,
  and the row stores 0, the digits before the point, where the integer truncation of the
  submitted value is 5. The value \<open>true\<close> is the number 1 for the validation and is
  stored as NaN, as is an empty \<open>classAverage\<close>, which the validation reads as 0.
\<close>

theorem stored_ratings_diverge:
  "ToNumber (JStr ''0.5e1'') = Gives (Fin 5) \<and> truncation (Fin 5) = Fin 5 \<and>
   status (fst (submitReview staleCache (reviewBody (JStr ''0.5e1'') (JStr ''72.5'')) ''now''
                  AppendOk)) = 200 \<and>
   snd (snd (submitReview staleCache (reviewBody (JStr ''0.5e1'') (JStr ''72.5'')) ''now''
               AppendOk))
     = [AppendReview [JStr ''Dr. Rao'', JNum (Fin 0), JNum (Fin 4), JNum (Fin 5), JNum (Fin 3),
                      JNum (Fin (145 / 2)), JNum (Fin 4), JStr ''now'']] \<and>
   ToNumber (JBool True) = Gives (Fin 1) \<and> truncation (Fin 1) = Fin 1 \<and>
   ToNumber (JStr '''') = Gives (Fin 0) \<and>
   status (fst (submitReview staleCache (reviewBody (JBool True) (JStr '''')) ''now''
                  AppendOk)) = 200 \<and>
   snd (snd (submitReview staleCache (reviewBody (JBool True) (JStr '''')) ''now'' AppendOk))
     = [AppendReview [JStr ''Dr. Rao'', JNum NaN, JNum (Fin 4), JNum (Fin 5), JNum (Fin 3),
                      JNum NaN, JNum (Fin 4), JStr ''now'']]"
  by code_simp

text \<open>
  What the route does store. On every successful submit-review the appended row is the
  trimmed name, \<open>parseInt\<close> of teaching, evaluation, behaviour and internals,
  \<open>parseFloat\<close> of classAverage, \<open>parseInt\<close> of overall, and the timestamp. A rating
  that is submitted as a JSON number and passes the validation lies between 1 and 5 and
  is stored as its integer truncation: 4.7 is stored as 4. In the example the ratings
  \<open>4.7\<close> and \<open>5\<close> submitted as strings are stored as 4 and 5, and the classAverage
  \<open>72.5\<close> is stored as 72.5, with its fraction.
\<close>

lemma validated_numbers_truncated:
  assumes "status (fst (submitReview c b ts ao)) = 200"
  shows "(\<exists>nm t e bh i ca ov.
            property b ''name'' = JStr nm \<and>
            parseInt (property b ''teaching'') = Gives t \<and>
            parseInt (property b ''evaluation'') = Gives e \<and>
            parseInt (property b ''behaviour'') = Gives bh \<and>
            parseInt (property b ''internals'') = Gives i \<and>
            parseFloat (property b ''classAverage'') = Gives ca \<and>
            parseInt (property b ''overall'') = Gives ov \<and>
            snd (snd (submitReview c b ts ao))
              = [AppendReview [JStr (trim nm), JNum t, JNum e, JNum bh, JNum i, JNum ca,
                               JNum ov, JStr ts]]) \<and>
         (\<forall>k \<in> set ratingFields. \<forall>x. property b k = JNum (Fin x) \<longrightarrow>
              1 \<le> x \<and> x \<le> 5 \<and>
              parseInt (property b k) = Gives (truncation (Fin x)) \<and>
              truncation (Fin x) = Fin (of_int \<lfloor>x\<rfloor>))"
proof (intro conjI ballI allI impI)
  from submit_success_row[OF assms] obtain row where
    row: "reviewRow b ts = Gives row" "snd (snd (submitReview c b ts ao)) = [AppendReview row]"
    by blast
  from reviewRow_Gives[OF row(1)] row(2)
  show "\<exists>nm t e bh i ca ov.
            property b ''name'' = JStr nm \<and>
            parseInt (property b ''teaching'') = Gives t \<and>
            parseInt (property b ''evaluation'') = Gives e \<and>
            parseInt (property b ''behaviour'') = Gives bh \<and>
            parseInt (property b ''internals'') = Gives i \<and>
            parseFloat (property b ''classAverage'') = Gives ca \<and>
            parseInt (property b ''overall'') = Gives ov \<and>
            snd (snd (submitReview c b ts ao))
              = [AppendReview [JStr (trim nm), JNum t, JNum e, JNum bh, JNum i, JNum ca,
                               JNum ov, JStr ts]]"
    by (elim exE conjE) (simp only: list.inject remote_call.inject, blast)
next
  fix k x
  assume k: "k \<in> set ratingFields" and v: "property b k = JNum (Fin x)"
  from submit_success_valid[OF assms k] v have r: "1 \<le> x" "x \<le> 5"
    by (simp_all add: outsideRange_def)
  then show "1 \<le> x" "x \<le> 5" by simp_all
  from r have "x < 10" by simp
  from parseInt_number[OF r(1) this] v r(1)
  show "parseInt (property b k) = Gives (truncation (Fin x))" by simp
  from r(1) show "truncation (Fin x) = Fin (of_int \<lfloor>x\<rfloor>)" by simp
qed

lemma numericBody_submit:
  "submitReview staleCache numericBody ''now'' AppendOk
     = (\<lparr>status = 200,
          body = JObj [(''success'', JBool True),
            (''message'', JStr ''Review submitted successfully''),
            (''data'', JObj [(''faculty'', JStr ''Dr. Rao''),
               (''ratings'', JObj [(''teaching'', JNum (Fin 4)), (''evaluation'', JNum (Fin 4)),
                  (''behaviour'', JNum (Fin 5)), (''internals'', JNum (Fin 3)),
                  (''classAverage'', JNum (Fin (145 / 2))), (''overall'', JNum (Fin 4))]),
               (''timestamp'', JStr ''now'')])]\<rparr>,
        \<lparr>data = Some [rao], timestamp = 0\<rparr>,
        [AppendReview [JStr ''Dr. Rao'', JNum (Fin 4), JNum (Fin 4), JNum (Fin 5), JNum (Fin 3),
                       JNum (Fin (145 / 2)), JNum (Fin 4), JStr ''now'']])"
  by code_simp

lemma numericBody_teaching:
  "property numericBody ''teaching'' = JNum (Fin (5291729562160333 / 1125899906842624))"
  by code_simp

lemma validated_numbers_example:
  "status (fst (submitReview staleCache numericBody ''now'' AppendOk)) = 200 \<and>
   ''teaching'' \<in> set ratingFields \<and>
   property numericBody ''teaching'' = JNum (Fin (5291729562160333 / 1125899906842624)) \<and>
   parseInt (property numericBody ''teaching'') = Gives (Fin 4) \<and>
   snd (snd (submitReview staleCache numericBody ''now'' AppendOk))
     = [AppendReview [JStr ''Dr. Rao'', JNum (Fin 4), JNum (Fin 4), JNum (Fin 5), JNum (Fin 3),
                      JNum (Fin (145 / 2)), JNum (Fin 4), JStr ''now'']]"
proof -
  have s: "status (fst (submitReview staleCache numericBody ''now'' AppendOk)) = 200"
    by (simp add: numericBody_submit)
  have k: "''teaching'' \<in> set ratingFields" by (simp add: ratingFields_def)
  have fl: "\<lfloor>5291729562160333 / 1125899906842624 :: rat\<rfloor> = 4" by (simp add: floor_eq_iff)
  from validated_numbers_truncated[OF s] k numericBody_teaching
  have "parseInt (property numericBody ''teaching'')
          = Gives (truncation (Fin (5291729562160333 / 1125899906842624)))"
       "truncation (Fin (5291729562160333 / 1125899906842624))
          = Fin (of_int \<lfloor>5291729562160333 / 1125899906842624 :: rat\<rfloor>)"
    by blast+
  then have "parseInt (property numericBody ''teaching'') = Gives (Fin 4)" by (simp only: fl) simp
  with s k numericBody_teaching show ?thesis by (simp add: numericBody_submit)
qed

end
